theory Spec2Isabelle
  imports Main "HOL-Library.Word"
begin

unbundle bit_operations_syntax

section \<open>Device filter (usbredirfilter.c)\<close>

subsection \<open>Data model\<close>

text \<open>
  \<^verbatim>\<open>struct usbredirfilter_rule\<close> has five \<^verbatim>\<open>int\<close> fields. The fields hold C
  \<^verbatim>\<open>int\<close> values; they are modelled as HOL integers, and the one place where a wider
  value is narrowed to \<^verbatim>\<open>int\<close> (the assignment of \<^verbatim>\<open>strtol\<close>'s result) writes the
  wrap-around out.
\<close>

record usbredirfilter_rule =
  device_class :: int
  vendor_id :: int
  product_id :: int
  device_version_bcd :: int
  allow :: int

text \<open>The errno values used by the filter, as \<^verbatim>\<open>errno.h\<close> defines them on Linux.\<close>

definition EPERM :: int where "EPERM = 1"
definition ENOENT :: int where "ENOENT = 2"
definition EINVAL :: int where "EINVAL = 22"

text \<open>
  Modelled from the spec: the flag enumerators \<^verbatim>\<open>usbredirfilter_fl_default_allow\<close> and
  \<^verbatim>\<open>usbredirfilter_fl_dont_skip_non_boot_hid\<close> are declared in usbredirfilter.h, which
  is not among the sources. The spec names the two flags; they are the two one-bit masks
  0x01 and 0x02.
\<close>

definition usbredirfilter_fl_default_allow :: int where
  "usbredirfilter_fl_default_allow = 1"

definition usbredirfilter_fl_dont_skip_non_boot_hid :: int where
  "usbredirfilter_fl_dont_skip_non_boot_hid = 2"

subsection \<open>usbredirfilter_verify\<close>

text \<open>
  The array \<^verbatim>\<open>rules\<close> with its length \<^verbatim>\<open>rules_count\<close> is one list. The loop returns
  \<^verbatim>\<open>-EINVAL\<close> at the first rule with a field out of range and 0 at the end.
\<close>

fun usbredirfilter_verify :: "usbredirfilter_rule list \<Rightarrow> int" where
  "usbredirfilter_verify [] = 0"
| "usbredirfilter_verify (r # rules) =
     (if device_class r < -1 \<or> device_class r > 255 then - EINVAL
      else if vendor_id r < -1 \<or> vendor_id r > 65535 then - EINVAL
      else if product_id r < -1 \<or> product_id r > 65535 then - EINVAL
      else if device_version_bcd r < -1 \<or> device_version_bcd r > 65535 then - EINVAL
      else usbredirfilter_verify rules)"

subsection \<open>usbredirfilter_check1 and usbredirfilter_check\<close>

text \<open>
  \<^verbatim>\<open>usbredirfilter_check1\<close>: the first rule whose four fields are each -1 or equal to
  the row's value decides; the \<^verbatim>\<open>uint8_t\<close> and \<^verbatim>\<open>uint16_t\<close> arguments are promoted
  to \<^verbatim>\<open>int\<close> for the comparison (\<open>uint\<close>).
\<close>

fun usbredirfilter_check1 ::
  "usbredirfilter_rule list \<Rightarrow> 8 word \<Rightarrow> 16 word \<Rightarrow> 16 word \<Rightarrow> 16 word \<Rightarrow> int \<Rightarrow> int" where
  "usbredirfilter_check1 [] dc v p b default_allow =
     (if default_allow \<noteq> 0 then 0 else - ENOENT)"
| "usbredirfilter_check1 (r # rules) dc v p b default_allow =
     (if (device_class r = -1 \<or> device_class r = uint dc) \<and>
         (vendor_id r = -1 \<or> vendor_id r = uint v) \<and>
         (product_id r = -1 \<or> product_id r = uint p) \<and>
         (device_version_bcd r = -1 \<or> device_version_bcd r = uint b)
      then (if allow r \<noteq> 0 then 0 else - EPERM)
      else usbredirfilter_check1 rules dc v p b default_allow)"

text \<open>
  The three parallel arrays \<^verbatim>\<open>interface_class\<close>, \<^verbatim>\<open>interface_subclass\<close> and
  \<^verbatim>\<open>interface_protocol\<close>, all read at the same index below \<^verbatim>\<open>interface_count\<close>,
  are one list of triples; \<^verbatim>\<open>interface_count\<close> is its length.
\<close>

type_synonym interface_row = "8 word \<times> 8 word \<times> 8 word"

text \<open>
  The loop over the interfaces. It either returns early with a non-zero \<^verbatim>\<open>rc\<close>
  (\<open>Inl\<close>) or runs to the end and leaves \<^verbatim>\<open>num_skipped\<close> (\<open>Inr\<close>). The argument
  \<open>interface_count\<close> is the constant of the loop condition, \<open>rows\<close> the entries from the
  current index on.
\<close>

fun check_interfaces ::
  "usbredirfilter_rule list \<Rightarrow> int \<Rightarrow> nat \<Rightarrow> interface_row list \<Rightarrow>
   16 word \<Rightarrow> 16 word \<Rightarrow> 16 word \<Rightarrow> nat \<Rightarrow> int + nat" where
  "check_interfaces rules flags interface_count [] v p b num_skipped = Inr num_skipped"
| "check_interfaces rules flags interface_count ((ic, isc, ip) # rows) v p b num_skipped =
     (if flags AND usbredirfilter_fl_dont_skip_non_boot_hid = 0 \<and>
         interface_count > 1 \<and> ic = 0x03 \<and> isc = 0x00 \<and> ip = 0x00
      then check_interfaces rules flags interface_count rows v p b (num_skipped + 1)
      else
        (let rc = usbredirfilter_check1 rules ic v p b
                    (flags AND usbredirfilter_fl_default_allow)
         in if rc \<noteq> 0 then Inl rc
            else check_interfaces rules flags interface_count rows v p b num_skipped))"

lemma check_interfaces_skipped_le:
  "check_interfaces rules flags n rows v p b k = Inr m \<Longrightarrow> m \<le> k + length rows"
  by (induction rules flags n rows v p b k rule: check_interfaces.induct)
     (auto simp: Let_def split: if_splits)

lemma check_interfaces_noskip:
  "flags AND usbredirfilter_fl_dont_skip_non_boot_hid \<noteq> 0 \<Longrightarrow>
   check_interfaces rules flags n rows v p b k = Inr m \<Longrightarrow> m = k"
  by (induction rules flags n rows v p b k rule: check_interfaces.induct)
     (auto simp: Let_def split: if_splits)

lemma dont_skip_forced:
  "(flags OR usbredirfilter_fl_dont_skip_non_boot_hid)
     AND usbredirfilter_fl_dont_skip_non_boot_hid \<noteq> (0::int)"
proof -
  have "(flags OR 2) AND 2 = (flags AND 2) OR (2 AND (2::int))"
    by (rule bit.conj_disj_distrib2)
  also have "\<dots> = (flags AND 2) OR 2" by simp
  finally have *: "(flags OR 2) AND 2 \<noteq> (0::int)" by (simp only: or_eq_0_iff) simp
  show ?thesis unfolding usbredirfilter_fl_dont_skip_non_boot_hid_def by (rule *)
qed

lemma dont_skip_keeps_default_allow:
  "(flags OR usbredirfilter_fl_dont_skip_non_boot_hid)
     AND usbredirfilter_fl_default_allow = flags AND usbredirfilter_fl_default_allow"
proof -
  have "(flags OR 2) AND 1 = (flags AND 1) OR (2 AND (1::int))"
    by (rule bit.conj_disj_distrib2)
  also have "\<dots> = flags AND 1" by simp
  finally have *: "(flags OR 2) AND 1 = flags AND (1::int)" .
  show ?thesis
    unfolding usbredirfilter_fl_dont_skip_non_boot_hid_def usbredirfilter_fl_default_allow_def
    by (rule *)
qed

text \<open>
  \<^verbatim>\<open>usbredirfilter_check\<close>. The function calls itself once, with
  \<^verbatim>\<open>usbredirfilter_fl_dont_skip_non_boot_hid\<close> set, when every interface was skipped;
  with the flag set nothing is skipped, so the recursion ends there (the termination proof).
  The arguments \<open>dsc\<close> and \<open>dp\<close> (device subclass and protocol) are passed on and never
  read, as in the source.
\<close>

function usbredirfilter_check ::
  "usbredirfilter_rule list \<Rightarrow> 8 word \<Rightarrow> 8 word \<Rightarrow> 8 word \<Rightarrow> interface_row list \<Rightarrow>
   16 word \<Rightarrow> 16 word \<Rightarrow> 16 word \<Rightarrow> int \<Rightarrow> int" where
  "usbredirfilter_check rules dc dsc dp ifs v p b flags =
     (if usbredirfilter_verify rules \<noteq> 0 then - EINVAL
      else
        (let rc = (if dc \<noteq> 0x00 \<and> dc \<noteq> 0xef
                   then usbredirfilter_check1 rules dc v p b
                          (flags AND usbredirfilter_fl_default_allow)
                   else 0)
         in if rc \<noteq> 0 then rc
            else
              (case check_interfaces rules flags (length ifs) ifs v p b 0 of
                 Inl rc' \<Rightarrow> rc'
               | Inr num_skipped \<Rightarrow>
                   if length ifs > 0 \<and> num_skipped = length ifs
                   then usbredirfilter_check rules dc dsc dp ifs v p b
                          (flags OR usbredirfilter_fl_dont_skip_non_boot_hid)
                   else 0)))"
  by pat_completeness auto
termination
proof (relation "measure (\<lambda>(rules, dc, dsc, dp, ifs, v, p, b, flags).
          if flags AND usbredirfilter_fl_dont_skip_non_boot_hid = 0 then 1 else 0)", goal_cases)
  case 1
  show ?case by simp
next
  case (2 rules dc dsc dp ifs v p b flags rc num_skipped)
  have "flags AND usbredirfilter_fl_dont_skip_non_boot_hid = 0"
  proof (rule ccontr)
    assume "flags AND usbredirfilter_fl_dont_skip_non_boot_hid \<noteq> 0"
    from check_interfaces_noskip [OF this 2(4)] 2(5) show False by simp
  qed
  then show ?case by (simp add: dont_skip_forced)
qed


declare usbredirfilter_check.simps [simp del]

subsection \<open>The match as the specification words it\<close>

text \<open>
  The following definitions follow the specification's description of the match, not the
  code: a rule matches a row when each of its four fields is the wildcard -1 or equal to
  the row's value; a row's verdict is that of the first matching rule, or the default
  policy; the rows considered are the device row (unless the device class is 0x00 or 0xEF)
  and the interface rows that are not skipped; the first refusal among the considered rows
  is the result; and when there are interfaces, all were skipped and nothing refused, the
  pass is redone with skipping off.
\<close>

definition rule_matches ::
  "usbredirfilter_rule \<Rightarrow> 8 word \<Rightarrow> 16 word \<Rightarrow> 16 word \<Rightarrow> 16 word \<Rightarrow> bool" where
  "rule_matches r cls v p b =
     ((device_class r = -1 \<or> device_class r = uint cls) \<and>
      (vendor_id r = -1 \<or> vendor_id r = uint v) \<and>
      (product_id r = -1 \<or> product_id r = uint p) \<and>
      (device_version_bcd r = -1 \<or> device_version_bcd r = uint b))"

definition row_verdict ::
  "usbredirfilter_rule list \<Rightarrow> bool \<Rightarrow> 16 word \<Rightarrow> 16 word \<Rightarrow> 16 word \<Rightarrow> 8 word \<Rightarrow> int" where
  "row_verdict rules default_allow v p b cls =
     (case find (\<lambda>r. rule_matches r cls v p b) rules of
        Some r \<Rightarrow> (if allow r \<noteq> 0 then 0 else - EPERM)
      | None \<Rightarrow> (if default_allow then 0 else - ENOENT))"

definition row_skipped :: "bool \<Rightarrow> nat \<Rightarrow> interface_row \<Rightarrow> bool" where
  "row_skipped dont_skip interface_count row =
     (\<not> dont_skip \<and> interface_count > 1 \<and> row = (0x03, 0x00, 0x00))"

definition considered_rows :: "bool \<Rightarrow> 8 word \<Rightarrow> interface_row list \<Rightarrow> 8 word list" where
  "considered_rows dont_skip dc ifs =
     (if dc \<noteq> 0x00 \<and> dc \<noteq> 0xef then [dc] else []) @
     map fst (filter (\<lambda>row. \<not> row_skipped dont_skip (length ifs) row) ifs)"

definition first_refusal :: "int list \<Rightarrow> int" where
  "first_refusal rcs = (case filter (\<lambda>rc. rc \<noteq> 0) rcs of [] \<Rightarrow> 0 | rc # _ \<Rightarrow> rc)"

definition check_pass ::
  "usbredirfilter_rule list \<Rightarrow> bool \<Rightarrow> bool \<Rightarrow> 8 word \<Rightarrow> interface_row list \<Rightarrow>
   16 word \<Rightarrow> 16 word \<Rightarrow> 16 word \<Rightarrow> int" where
  "check_pass rules default_allow dont_skip dc ifs v p b =
     first_refusal (map (row_verdict rules default_allow v p b) (considered_rows dont_skip dc ifs))"

definition filter_check_spec ::
  "usbredirfilter_rule list \<Rightarrow> bool \<Rightarrow> bool \<Rightarrow> 8 word \<Rightarrow> interface_row list \<Rightarrow>
   16 word \<Rightarrow> 16 word \<Rightarrow> 16 word \<Rightarrow> int" where
  "filter_check_spec rules default_allow dont_skip dc ifs v p b =
     (let rc = check_pass rules default_allow dont_skip dc ifs v p b
      in if rc = 0 \<and> length ifs > 0 \<and> list_all (row_skipped dont_skip (length ifs)) ifs
         then check_pass rules default_allow True dc ifs v p b
         else rc)"

lemma check1_row_verdict:
  "usbredirfilter_check1 rules cls v p b da = row_verdict rules (da \<noteq> 0) v p b cls"
  by (induction rules) (auto simp: row_verdict_def rule_matches_def)

lemma first_refusal_Nil [simp]: "first_refusal [] = 0"
  by (simp add: first_refusal_def)

lemma first_refusal_Cons [simp]:
  "first_refusal (rc # rcs) = (if rc \<noteq> 0 then rc else first_refusal rcs)"
  by (simp add: first_refusal_def)

lemma check_interfaces_spec:
  "check_interfaces rules flags n rows v p b k =
     (let ds = (flags AND usbredirfilter_fl_dont_skip_non_boot_hid \<noteq> 0);
          rc = first_refusal (map (row_verdict rules
                  (flags AND usbredirfilter_fl_default_allow \<noteq> 0) v p b)
                  (map fst (filter (\<lambda>row. \<not> row_skipped ds n row) rows)))
      in if rc \<noteq> 0 then Inl rc
         else Inr (k + length (filter (row_skipped ds n) rows)))"
  by (induction rules flags n rows v p b k rule: check_interfaces.induct)
     (auto simp: Let_def row_skipped_def check1_row_verdict)


lemma length_filter_all: "(length (filter P xs) = length xs) = list_all P xs"
proof (induction xs)
  case Nil
  show ?case by simp
next
  case (Cons x xs)
  have le: "length (filter P xs) \<le> length xs" by (rule length_filter_le)
  show ?case
  proof (cases "P x")
    case True
    with Cons show ?thesis by simp
  next
    case False
    from le have "length (filter P xs) \<noteq> Suc (length xs)" by arith
    with False show ?thesis by simp
  qed
qed

lemma check_pass_split:
  "check_pass rules da ds dc ifs v p b =
     (let rc = (if dc \<noteq> 0x00 \<and> dc \<noteq> 0xef then row_verdict rules da v p b dc else 0)
      in if rc \<noteq> 0 then rc
         else first_refusal (map (row_verdict rules da v p b)
                (map fst (filter (\<lambda>row. \<not> row_skipped ds (length ifs) row) ifs))))"
  by (simp add: check_pass_def considered_rows_def Let_def)

lemma usbredirfilter_check_one_pass:
  assumes "usbredirfilter_verify rules = 0"
  shows "usbredirfilter_check rules dc dsc dp ifs v p b flags =
     (let da = (flags AND usbredirfilter_fl_default_allow \<noteq> 0);
          ds = (flags AND usbredirfilter_fl_dont_skip_non_boot_hid \<noteq> 0);
          rc = check_pass rules da ds dc ifs v p b
      in if rc \<noteq> 0 then rc
         else if length ifs > 0 \<and> list_all (row_skipped ds (length ifs)) ifs
         then usbredirfilter_check rules dc dsc dp ifs v p b
                (flags OR usbredirfilter_fl_dont_skip_non_boot_hid)
         else 0)"
  using assms
  by (subst usbredirfilter_check.simps)
     (simp add: check_interfaces_spec check_pass_split check1_row_verdict Let_def
        length_filter_all)

lemma row_skipped_forced [simp]: "row_skipped True n row = False"
  by (simp add: row_skipped_def)

lemma all_rows_skipped_forced: "list_all (row_skipped True n) rows = (rows = [])"
  by (cases rows) simp_all

lemma usbredirfilter_check_forced:
  assumes "usbredirfilter_verify rules = 0"
    and "flags AND usbredirfilter_fl_dont_skip_non_boot_hid \<noteq> 0"
  shows "usbredirfilter_check rules dc dsc dp ifs v p b flags =
     check_pass rules (flags AND usbredirfilter_fl_default_allow \<noteq> 0) True dc ifs v p b"
  using assms(2)
  by (subst usbredirfilter_check_one_pass [OF assms(1)])
     (simp add: Let_def all_rows_skipped_forced)

text \<open>
  Claim C7. For every verified rule list and every device, \<^verbatim>\<open>usbredirfilter_check\<close>
  returns what the specification's description of the match gives: the device row is
  evaluated unless the device class is 0x00 or 0xEF, an interface row is skipped exactly
  when the dont-skip flag is clear, there is more than one interface and the row is
  (0x03, 0x00, 0x00); for each considered row the first matching rule decides (allow 0,
  deny \<^verbatim>\<open>-EPERM\<close>), a row no rule matches gives 0 under default-allow and \<^verbatim>\<open>-ENOENT\<close>
  otherwise; and when there are interfaces and all were skipped, the check is redone once
  with the dont-skip flag forced on.
\<close>

theorem usbredirfilter_check_refines_spec:
  assumes "usbredirfilter_verify rules = 0"
  shows "usbredirfilter_check rules dc dsc dp ifs v p b flags =
     filter_check_spec rules (flags AND usbredirfilter_fl_default_allow \<noteq> 0)
       (flags AND usbredirfilter_fl_dont_skip_non_boot_hid \<noteq> 0) dc ifs v p b"
proof -
  have forced: "usbredirfilter_check rules dc dsc dp ifs v p b
          (flags OR usbredirfilter_fl_dont_skip_non_boot_hid) =
        check_pass rules (flags AND usbredirfilter_fl_default_allow \<noteq> 0) True dc ifs v p b"
    using usbredirfilter_check_forced [OF assms dont_skip_forced]
    by (simp add: dont_skip_keeps_default_allow)
  show ?thesis
    by (subst usbredirfilter_check_one_pass [OF assms])
       (simp add: forced filter_check_spec_def Let_def)
qed

definition example_rules :: "usbredirfilter_rule list" where
  "example_rules =
     [\<lparr>device_class = 3, vendor_id = -1, product_id = -1, device_version_bcd = -1, allow = 0\<rparr>,
      \<lparr>device_class = -1, vendor_id = -1, product_id = -1, device_version_bcd = -1, allow = 1\<rparr>]"

theorem usbredirfilter_check_refines_spec_witness:
  "usbredirfilter_verify example_rules = 0 \<and>
   usbredirfilter_check example_rules 0 0 0 [(3, 0, 0), (3, 0, 0)] 0x046d 0xc52b 0x1201 0 = - EPERM \<and>
   filter_check_spec example_rules False False 0 [(3, 0, 0), (3, 0, 0)] 0x046d 0xc52b 0x1201 = - EPERM"
proof -
  have v: "usbredirfilter_verify example_rules = 0"
    by (simp add: example_rules_def)
  have s: "filter_check_spec example_rules False False 0 [(3, 0, 0), (3, 0, 0)] 0x046d 0xc52b 0x1201
             = - EPERM"
    by (simp add: filter_check_spec_def check_pass_def considered_rows_def row_skipped_def
        row_verdict_def rule_matches_def example_rules_def Let_def)
  have f: "((0::int) AND usbredirfilter_fl_default_allow \<noteq> 0) = False"
          "((0::int) AND usbredirfilter_fl_dont_skip_non_boot_hid \<noteq> 0) = False"
    by simp_all
  from usbredirfilter_check_refines_spec [OF v, of 0 0 0 "[(3, 0, 0), (3, 0, 0)]" "0x046d" "0xc52b" "0x1201" 0]
  show ?thesis using v s by (simp add: f)
qed

text \<open>
  Claim C10. For every verified rule list and every vendor, product and version, when the
  device class is 0x00 or 0xEF and there is no interface, \<^verbatim>\<open>usbredirfilter_check\<close>
  returns 0 whatever the rules and the flags are: no row is evaluated.
\<close>

theorem usbredirfilter_check_no_rows:
  assumes "usbredirfilter_verify rules = 0" and "dc = 0x00 \<or> dc = 0xef"
  shows "usbredirfilter_check rules dc dsc dp [] v p b flags = 0"
  using assms by (subst usbredirfilter_check.simps) auto

theorem usbredirfilter_check_no_rows_witness:
  "usbredirfilter_verify
     [\<lparr>device_class = -1, vendor_id = -1, product_id = -1, device_version_bcd = -1, allow = 0\<rparr>] = 0 \<and>
   ((0xef::8 word) = 0x00 \<or> (0xef::8 word) = 0xef) \<and>
   usbredirfilter_check
     [\<lparr>device_class = -1, vendor_id = -1, product_id = -1, device_version_bcd = -1, allow = 0\<rparr>]
     0xef 0x02 0x01 [] 0x046d 0xc52b 0x1201 0 = 0"
proof -
  have v: "usbredirfilter_verify
     [\<lparr>device_class = -1, vendor_id = -1, product_id = -1, device_version_bcd = -1, allow = 0\<rparr>] = 0"
    by simp
  have d: "(0xef::8 word) = 0x00 \<or> (0xef::8 word) = 0xef" by simp
  from usbredirfilter_check_no_rows [OF v d, of 2 1 "0x046d" "0xc52b" "0x1201" 0] v
  show ?thesis by simp
qed

subsection \<open>C library functions used by the filter parser\<close>

text \<open>
  \<^verbatim>\<open>isspace\<close> in the C locale, and the value of a character as a digit (36, no digit
  in any base, for every other character).
\<close>

definition isspace :: "char \<Rightarrow> bool" where
  "isspace c = (c \<in> set [CHR '' '', CHR 0x09, CHR 0x0A, CHR 0x0B, CHR 0x0C, CHR 0x0D])"

definition digit_value :: "char \<Rightarrow> nat" where
  "digit_value c =
     (let n = (of_char c :: nat) in
      if 48 \<le> n \<and> n \<le> 57 then n - 48
      else if 97 \<le> n \<and> n \<le> 122 then n - 87
      else if 65 \<le> n \<and> n \<le> 90 then n - 55
      else 36)"

definition is_digit :: "nat \<Rightarrow> char \<Rightarrow> bool" where
  "is_digit base c = (digit_value c < base)"

text \<open>
  \<^verbatim>\<open>long\<close> is 64 bits wide (the LP64 targets: Linux and Android on x86-64 and arm64),
  \<^verbatim>\<open>int\<close> 32 bits.
\<close>

definition LONG_MAX :: int where "LONG_MAX = 2 ^ 63 - 1"
definition LONG_MIN :: int where "LONG_MIN = - (2 ^ 63)"

definition digits_value :: "nat \<Rightarrow> string \<Rightarrow> int" where
  "digits_value base ds = foldl (\<lambda>acc c. acc * int base + int (digit_value c)) 0 ds"

text \<open>
  \<^verbatim>\<open>strtol(nptr, &ep, 0)\<close> of ISO C: white space is skipped, then an optional sign, then
  a \<^verbatim>\<open>0x\<close> or \<^verbatim>\<open>0X\<close> prefix selects base 16, a leading \<^verbatim>\<open>0\<close> base 8, anything else
  base 10; the longest run of digits of that base is converted. With no digit, the result
  is 0 and the end pointer is \<^verbatim>\<open>nptr\<close> (after \<^verbatim>\<open>0x\<close> without a hexadecimal digit, the
  zero is the number and the end pointer is at the \<^verbatim>\<open>x\<close>). A value that does not fit a
  \<^verbatim>\<open>long\<close> is clamped to \<^verbatim>\<open>LONG_MAX\<close> or \<^verbatim>\<open>LONG_MIN\<close>. The function returns the
  value and the rest of the string from the end pointer on.
\<close>

definition strtol :: "string \<Rightarrow> int \<times> string" where
  "strtol nptr =
     (let s1 = dropWhile isspace nptr;
          negative = (case s1 of c # _ \<Rightarrow> c = CHR ''-'' | [] \<Rightarrow> False);
          s2 = (case s1 of c # t \<Rightarrow> if c = CHR ''-'' \<or> c = CHR ''+'' then t else s1 | [] \<Rightarrow> s1);
          base = (case s2 of
                    c # x # _ \<Rightarrow> if c = CHR ''0'' then (if x = CHR ''x'' \<or> x = CHR ''X'' then 16 else 8)
                                 else 10
                  | [c] \<Rightarrow> if c = CHR ''0'' then 8 else 10
                  | [] \<Rightarrow> 10);
          s3 = (if base = 16 then drop 2 s2 else s2);
          ds = takeWhile (is_digit base) s3;
          endptr = dropWhile (is_digit base) s3;
          v = digits_value base ds
      in if ds = [] then (if base = 16 then (0, drop 1 s2) else (0, nptr))
         else if negative then (if v > - LONG_MIN then (LONG_MIN, endptr) else (- v, endptr))
         else (if v > LONG_MAX then (LONG_MAX, endptr) else (v, endptr)))"

text \<open>
  The assignment \<^verbatim>\<open>values[i] = strtol(...)\<close> narrows the \<^verbatim>\<open>long\<close> to \<^verbatim>\<open>int\<close>: the low
  32 bits, read as two's complement.
\<close>

definition long_to_int :: "int \<Rightarrow> int" where
  "long_to_int v = sint (word_of_int v :: 32 word)"

text \<open>
  The value of an \<^verbatim>\<open>int\<close> expression whose mathematical value is \<open>v\<close>: \<^verbatim>\<open>int\<close> has 32
  bits, and on the two's complement targets modelled an overflow wraps around.
\<close>

definition c_int :: "int \<Rightarrow> int" where
  "c_int v = sint (word_of_int v :: 32 word)"

text \<open>
  \<^verbatim>\<open>malloc\<close> with an \<^verbatim>\<open>int\<close> argument, which is converted to \<^verbatim>\<open>size_t\<close>: a negative
  one becomes a size above \<^verbatim>\<open>PTRDIFF_MAX\<close>, which no allocator grants (\<open>None\<close>, the
  \<^verbatim>\<open>NULL\<close> pointer); every other request is taken to succeed. The fresh buffer's bytes
  are indeterminate in C and never read before they are written; the model fills it
  with zeros.
\<close>

type_synonym byte = "8 word"

definition malloc :: "int \<Rightarrow> byte list option" where
  "malloc n = (if n < 0 then None else Some (replicate (nat n) 0))"

text \<open>
  \<^verbatim>\<open>strtok_r\<close>: the argument \<open>s\<close> is the string to continue from (the buffer on the first
  call, the save pointer afterwards). Leading delimiters are skipped; at the end of the
  string there is no token (\<open>None\<close>); otherwise the token runs up to the next delimiter and
  the new save pointer is behind that delimiter.
\<close>

definition strtok_r :: "string \<Rightarrow> string \<Rightarrow> (string \<times> string) option" where
  "strtok_r s delim =
     (let t = dropWhile (\<lambda>c. c \<in> set delim) s
      in if t = [] then None
         else Some (takeWhile (\<lambda>c. c \<notin> set delim) t,
                    drop 1 (dropWhile (\<lambda>c. c \<notin> set delim) t)))"

lemma strtok_r_shorter:
  assumes "strtok_r s delim = Some (tok, rest)"
  shows "length rest < length s"
proof -
  define t where "t = dropWhile (\<lambda>c. c \<in> set delim) s"
  define u where "u = dropWhile (\<lambda>c. c \<notin> set delim) t"
  from assms have t: "t \<noteq> []" and rest: "rest = drop 1 u"
    by (auto simp: strtok_r_def Let_def t_def u_def split: if_splits)
  have ut: "length u \<le> length t" unfolding u_def by (rule length_dropWhile_le)
  have ts: "length t \<le> length s" unfolding t_def by (rule length_dropWhile_le)
  from t have t0: "0 < length t" by simp
  have "length rest < length t"
  proof (cases u)
    case Nil
    with rest t0 show ?thesis by simp
  next
    case (Cons a u')
    with rest have "Suc (length rest) = length u" by simp
    with ut show ?thesis by arith
  qed
  with ts show ?thesis by arith
qed

subsection \<open>usbredirfilter_string_to_rules\<close>

text \<open>
  The inner loop \<^verbatim>\<open>for (i = 0; i < 5 && token; i++)\<close>. \<open>token\<close> is the current token with
  the save pointer behind it, \<open>values\<close> the five \<^verbatim>\<open>int\<close>s of the rule being filled
  (\<^verbatim>\<open>calloc\<close> zeroed them). The result is the state at the loop's exit: \<open>i\<close>, the token
  (still there after a \<^verbatim>\<open>break\<close>) and the values.
\<close>

function parse_values ::
  "string \<Rightarrow> nat \<Rightarrow> (string \<times> string) option \<Rightarrow> int list \<Rightarrow>
   nat \<times> (string \<times> string) option \<times> int list" where
  "parse_values token_sep i token values =
     (if i < 5 then
        (case token of
           None \<Rightarrow> (i, token, values)
         | Some (tok, token_saveptr) \<Rightarrow>
             (let (v, ep) = strtol tok;
                  values' = values[i := long_to_int v]
              in if ep \<noteq> [] then (i, token, values')
                 else parse_values token_sep (i + 1) (strtok_r token_saveptr token_sep) values'))
      else (i, token, values))"
  by pat_completeness auto
termination
  by (relation "measure (\<lambda>(token_sep, i, token, values). 5 - i)") auto

declare parse_values.simps [simp del]

text \<open>
  One pass of the outer loop's body: \<open>None\<close> is the \<^verbatim>\<open>goto leave\<close> with \<^verbatim>\<open>-EINVAL\<close>.
\<close>

definition parse_rule :: "string \<Rightarrow> string \<Rightarrow> usbredirfilter_rule option" where
  "parse_rule token_sep rule =
     (let (i, token, values) = parse_values token_sep 0 (strtok_r rule token_sep) [0, 0, 0, 0, 0];
          r = \<lparr>device_class = values ! 0, vendor_id = values ! 1, product_id = values ! 2,
               device_version_bcd = values ! 3, allow = values ! 4\<rparr>
      in if i \<noteq> 5 \<or> token \<noteq> None \<or> usbredirfilter_verify [r] \<noteq> 0 then None
         else Some r)"

text \<open>
  The outer loop \<^verbatim>\<open>while (rule)\<close>. The counting pass before it only sizes the array and
  is not modelled; allocation is taken to succeed. The result is \<open>Inl\<close> the negative errno,
  or \<open>Inr\<close> the rules (\<^verbatim>\<open>*rules_count_ret\<close> is the length of the list, the return value 0).
\<close>

function parse_rules ::
  "string \<Rightarrow> string \<Rightarrow> string \<Rightarrow> usbredirfilter_rule list \<Rightarrow>
   int + usbredirfilter_rule list" where
  "parse_rules token_sep rule_sep rule_saveptr rules =
     (case strtok_r rule_saveptr rule_sep of
        None \<Rightarrow> Inr rules
      | Some (rule, rule_saveptr') \<Rightarrow>
          (case parse_rule token_sep rule of
             None \<Rightarrow> Inl (- EINVAL)
           | Some r \<Rightarrow> parse_rules token_sep rule_sep rule_saveptr' (rules @ [r])))"
  by pat_completeness auto
termination
  by (relation "measure (\<lambda>(token_sep, rule_sep, rule_saveptr, rules). length rule_saveptr)")
     (auto dest: strtok_r_shorter)

declare parse_rules.simps [simp del]

definition usbredirfilter_string_to_rules ::
  "string \<Rightarrow> string \<Rightarrow> string \<Rightarrow> int + usbredirfilter_rule list" where
  "usbredirfilter_string_to_rules filter_str token_sep rule_sep =
     (if length token_sep = 0 \<or> length rule_sep = 0 then Inl (- EINVAL)
      else parse_rules token_sep rule_sep filter_str [])"

subsection \<open>usbredirfilter_rules_to_string\<close>

text \<open>
  \<^verbatim>\<open>sprintf\<close> with \<^verbatim>\<open>"0x%02x"\<close> and \<^verbatim>\<open>"0x%04x"\<close>: the \<^verbatim>\<open>int\<close> is printed as an
  \<^verbatim>\<open>unsigned int\<close> in lower-case hexadecimal, padded with zeros to the width.
\<close>

definition hexdigit :: "nat \<Rightarrow> char" where
  "hexdigit d = ''0123456789abcdef'' ! d"

function to_hex :: "nat \<Rightarrow> string" where
  "to_hex n = (if n < 16 then [hexdigit n] else to_hex (n div 16) @ [hexdigit (n mod 16)])"
  by pat_completeness auto
termination
  by (relation "measure id") auto

declare to_hex.simps [simp del]

definition sprintf_0x :: "nat \<Rightarrow> int \<Rightarrow> string" where
  "sprintf_0x width v =
     (let h = to_hex (nat (v mod 2 ^ 32))
      in ''0x'' @ replicate (width - length h) (CHR ''0'') @ h)"

definition sprintf_field :: "nat \<Rightarrow> int \<Rightarrow> char \<Rightarrow> string" where
  "sprintf_field width v sep =
     (if v \<noteq> -1 then sprintf_0x width v @ [sep] else ''-1'' @ [sep])"

fun rules_to_string_loop :: "usbredirfilter_rule list \<Rightarrow> char \<Rightarrow> char \<Rightarrow> string" where
  "rules_to_string_loop [] token_sep rule_sep = []"
| "rules_to_string_loop (r # rules) token_sep rule_sep =
     sprintf_field 2 (device_class r) token_sep @
     sprintf_field 4 (vendor_id r) token_sep @
     sprintf_field 4 (product_id r) token_sep @
     sprintf_field 4 (device_version_bcd r) token_sep @
     (if allow r \<noteq> 0 then ''1'' else ''0'') @
     (if rules \<noteq> [] then [rule_sep] else []) @
     rules_to_string_loop rules token_sep rule_sep"

text \<open>
  \<^verbatim>\<open>usbredirfilter_rules_to_string\<close>. The array and its \<^verbatim>\<open>int rules_count\<close> are one list.
  The buffer is \<^verbatim>\<open>malloc(28 * rules_count + 1)\<close>, the size computed in \<^verbatim>\<open>int\<close>; the text
  and its terminating zero are written into it. The result is \<open>Inr None\<close> for the \<^verbatim>\<open>NULL\<close>
  pointer, \<open>Inr (Some s)\<close> for the string \<open>s\<close>, and \<open>Inl Buffer_overrun\<close> where the text does
  not fit the buffer and \<^verbatim>\<open>sprintf\<close> writes past its end.
\<close>

datatype fault = Buffer_overrun

definition usbredirfilter_rules_to_string ::
  "usbredirfilter_rule list \<Rightarrow> string \<Rightarrow> string \<Rightarrow> fault + string option" where
  "usbredirfilter_rules_to_string rules token_sep rule_sep =
     (let rules_count = int (length rules)
      in if usbredirfilter_verify rules \<noteq> 0 then Inr None
         else if length token_sep = 0 \<or> length rule_sep = 0 then Inr None
         else
           (case malloc (c_int (28 * rules_count + 1)) of
              None \<Rightarrow> Inr None
            | Some str \<Rightarrow>
                (let s = rules_to_string_loop rules (hd token_sep) (hd rule_sep)
                 in if length s + 1 \<le> length str then Inr (Some s)
                    else Inl Buffer_overrun)))"

subsection \<open>Facts about the C library models\<close>

lemma hexdigit_props:
  "\<forall>d \<in> {0..<16}. digit_value (hexdigit d) = d \<and> hexdigit d \<noteq> CHR '','' \<and> hexdigit d \<noteq> CHR ''|''"
  by code_simp

lemma digit_value_hexdigit: "d < 16 \<Longrightarrow> digit_value (hexdigit d) = d"
  using hexdigit_props by simp

lemma hexdigit_no_sep: "d < 16 \<Longrightarrow> hexdigit d \<noteq> CHR '','' \<and> hexdigit d \<noteq> CHR ''|''"
  using hexdigit_props by simp

lemma to_hex_nonempty: "to_hex n \<noteq> []"
  by (subst to_hex.simps) simp

lemma to_hex_chars:
  "c \<in> set (to_hex n) \<Longrightarrow> is_digit 16 c \<and> c \<noteq> CHR '','' \<and> c \<noteq> CHR ''|''"
proof (induction n rule: to_hex.induct)
  case (1 n)
  show ?case
  proof (cases "n < 16")
    case True
    with "1.prems" have "c = hexdigit n" by (subst (asm) to_hex.simps) simp
    with True show ?thesis
      by (simp add: is_digit_def digit_value_hexdigit hexdigit_no_sep)
  next
    case False
    with "1.prems" have "c \<in> set (to_hex (n div 16)) \<or> c = hexdigit (n mod 16)"
      by (subst (asm) to_hex.simps) auto
    then show ?thesis
    proof
      assume "c \<in> set (to_hex (n div 16))"
      with "1.IH" False show ?thesis by simp
    next
      assume "c = hexdigit (n mod 16)"
      then show ?thesis
        by (simp add: is_digit_def digit_value_hexdigit hexdigit_no_sep)
    qed
  qed
qed

lemma digits_value_snoc:
  "digits_value base (ds @ [c]) = digits_value base ds * int base + int (digit_value c)"
  by (simp add: digits_value_def)

lemma digits_value_to_hex: "digits_value 16 (to_hex n) = int n"
proof (induction n rule: to_hex.induct)
  case (1 n)
  show ?case
  proof (cases "n < 16")
    case True
    then show ?thesis
      by (subst to_hex.simps) (simp add: digits_value_def digit_value_hexdigit)
  next
    case False
    have "digits_value 16 (to_hex n) =
            digits_value 16 (to_hex (n div 16)) * 16 + int (digit_value (hexdigit (n mod 16)))"
      using False by (subst to_hex.simps) (simp add: digits_value_snoc)
    also have "\<dots> = int (n div 16) * 16 + int (n mod 16)"
      using "1.IH" False by (simp add: digit_value_hexdigit)
    also have "\<dots> = int n" by (simp add: zmod_int zdiv_int)
    finally show ?thesis .
  qed
qed

lemma digits_value_zeros:
  "digits_value 16 (replicate k (CHR ''0'') @ ds) = digits_value 16 ds"
proof -
  have z: "foldl (\<lambda>acc c. acc * 16 + int (digit_value c)) 0 (replicate k (CHR ''0'')) = 0"
    by (induction k) (simp_all add: digit_value_def)
  show ?thesis by (simp add: digits_value_def z)
qed

lemma long_to_int_id: "- (2 ^ 31) \<le> v \<Longrightarrow> v < 2 ^ 31 \<Longrightarrow> long_to_int v = v"
  by (simp add: long_to_int_def sint_sbintrunc' signed_take_bit_int_eq_self)

lemma strtol_0x:
  assumes digits: "\<forall>c \<in> set ds. is_digit 16 c" and ne: "ds \<noteq> []"
    and small: "digits_value 16 ds \<le> LONG_MAX"
  shows "strtol (''0x'' @ ds) = (digits_value 16 ds, [])"
proof -
  from digits have tw: "takeWhile (is_digit 16) ds = ds" and dw: "dropWhile (is_digit 16) ds = []"
    by simp_all
  from ne obtain d ds' where ds: "ds = d # ds'" by (cases ds) auto
  show ?thesis
    using tw dw small ne
    by (simp add: strtol_def isspace_def Let_def ds)
qed


subsection \<open>Round trip of one field\<close>

definition field_token :: "nat \<Rightarrow> int \<Rightarrow> string" where
  "field_token width v = (if v \<noteq> -1 then sprintf_0x width v else ''-1'')"

lemma sprintf_field_token: "sprintf_field width v sep = field_token width v @ [sep]"
  by (simp add: sprintf_field_def field_token_def)

lemma strtol_minus_one: "strtol ''-1'' = (-1, [])"
  by (simp add: strtol_def isspace_def Let_def is_digit_def digit_value_def digits_value_def
      LONG_MIN_def)

lemma strtol_one: "strtol ''1'' = (1, [])"
  by (simp add: strtol_def isspace_def Let_def is_digit_def digit_value_def digits_value_def
      LONG_MAX_def)

lemma strtol_zero: "strtol ''0'' = (0, [])"
  by (simp add: strtol_def isspace_def Let_def is_digit_def digit_value_def digits_value_def
      LONG_MAX_def)

lemma field_token_props:
  assumes "-1 \<le> v" and "v \<le> 65535"
  shows "field_token width v \<noteq> []"
    and "CHR '','' \<notin> set (field_token width v)"
    and "CHR ''|'' \<notin> set (field_token width v)"
    and "strtol (field_token width v) = (v, [])"
proof -
  show "field_token width v \<noteq> []"
    by (simp add: field_token_def sprintf_0x_def Let_def)
  show "CHR '','' \<notin> set (field_token width v)"
    using to_hex_chars by (auto simp: field_token_def sprintf_0x_def Let_def)
  show "CHR ''|'' \<notin> set (field_token width v)"
    using to_hex_chars by (auto simp: field_token_def sprintf_0x_def Let_def)
  show "strtol (field_token width v) = (v, [])"
  proof (cases "v = -1")
    case True
    then show ?thesis by (simp add: field_token_def strtol_minus_one)
  next
    case False
    with assms have v: "0 \<le> v" "v < 2 ^ 32" by simp_all
    define n where "n = nat (v mod 2 ^ 32)"
    from v have n: "int n = v" by (simp add: n_def)
    define ds where "ds = replicate (width - length (to_hex n)) (CHR ''0'') @ to_hex n"
    have dv: "digits_value 16 ds = v"
      by (simp add: ds_def digits_value_zeros digits_value_to_hex n)
    have z: "is_digit 16 (CHR ''0'')" by (simp add: is_digit_def digit_value_def)
    have "\<forall>c \<in> set ds. is_digit 16 c"
      using to_hex_chars z by (auto simp: ds_def)
    moreover have "ds \<noteq> []" by (simp add: ds_def to_hex_nonempty)
    moreover have "digits_value 16 ds \<le> LONG_MAX" using assms dv by (simp add: LONG_MAX_def)
    ultimately have "strtol (''0x'' @ ds) = (digits_value 16 ds, [])" by (rule strtol_0x)
    moreover have "field_token width v = ''0x'' @ ds"
      using False by (simp add: field_token_def sprintf_0x_def Let_def ds_def n_def)
    ultimately show ?thesis using dv by simp
  qed
qed

subsection \<open>Tokenising\<close>

lemma strtok_r_token:
  assumes "tok \<noteq> []" and "sep \<notin> set tok"
  shows "strtok_r (tok @ sep # rest) [sep] = Some (tok, rest)"
proof -
  from assms obtain a tok' where tok: "tok = a # tok'" and a: "a \<noteq> sep"
    by (cases tok) auto
  have dw: "dropWhile (\<lambda>c. c \<in> set [sep]) (tok @ sep # rest) = tok @ sep # rest"
    using a by (simp add: tok)
  have tw: "takeWhile (\<lambda>c. c \<notin> set [sep]) (tok @ sep # rest) = tok"
    using assms(2) by (subst takeWhile_append2) auto
  have dw2: "dropWhile (\<lambda>c. c \<notin> set [sep]) (tok @ sep # rest) = sep # rest"
    using assms(2) by (subst dropWhile_append2) auto
  show ?thesis
    unfolding strtok_r_def Let_def dw tw dw2 using assms(1) by simp
qed

lemma strtok_r_last:
  assumes "tok \<noteq> []" and "sep \<notin> set tok"
  shows "strtok_r tok [sep] = Some (tok, [])"
proof -
  from assms obtain a tok' where tok: "tok = a # tok'" and a: "a \<noteq> sep"
    by (cases tok) auto
  have dw: "dropWhile (\<lambda>c. c \<in> set [sep]) tok = tok"
    using a by (simp add: tok)
  have tw: "takeWhile (\<lambda>c. c \<notin> set [sep]) tok = tok"
    using assms(2) by auto
  have dw2: "dropWhile (\<lambda>c. c \<notin> set [sep]) tok = []"
    using assms(2) by auto
  show ?thesis
    unfolding strtok_r_def Let_def dw tw dw2 using assms(1) by simp
qed

lemma strtok_r_empty: "strtok_r [] delim = None"
  by (simp add: strtok_r_def)

lemma parse_values_step:
  assumes "i < 5" and "strtol tok = (v, [])"
  shows "parse_values token_sep i (Some (tok, token_saveptr)) values =
         parse_values token_sep (Suc i) (strtok_r token_saveptr token_sep)
           (values[i := long_to_int v])"
  using assms by (subst parse_values.simps) simp

lemma parse_values_step':
  assumes "i < 5" and "strtol tok = (v, [])" and "j = Suc i"
  shows "parse_values token_sep i (Some (tok, token_saveptr)) values =
         parse_values token_sep j (strtok_r token_saveptr token_sep)
           (values[i := long_to_int v])"
  using assms by (simp add: parse_values_step)

lemma parse_values_done: "parse_values token_sep 5 token values = (5, token, values)"
  by (subst parse_values.simps) simp


subsection \<open>Round trip of one rule and of a rule list\<close>

definition normalize_allow :: "usbredirfilter_rule \<Rightarrow> usbredirfilter_rule" where
  "normalize_allow r = r\<lparr>allow := (if allow r \<noteq> 0 then 1 else 0)\<rparr>"

definition allow_token :: "usbredirfilter_rule \<Rightarrow> string" where
  "allow_token r = (if allow r \<noteq> 0 then ''1'' else ''0'')"

definition rule_string :: "usbredirfilter_rule \<Rightarrow> string" where
  "rule_string r =
     field_token 2 (device_class r) @ CHR '','' #
     field_token 4 (vendor_id r) @ CHR '','' #
     field_token 4 (product_id r) @ CHR '','' #
     field_token 4 (device_version_bcd r) @ CHR '','' #
     allow_token r"

lemma rules_to_string_loop_Cons:
  "rules_to_string_loop (r # rules) (CHR '','') (CHR ''|'') =
     rule_string r @ (if rules \<noteq> [] then ''|'' else []) @
     rules_to_string_loop rules (CHR '','') (CHR ''|'')"
  by (simp add: rule_string_def sprintf_field_token allow_token_def)

lemma verify_Cons:
  "usbredirfilter_verify (r # rules) = 0 \<longleftrightarrow>
     usbredirfilter_verify [r] = 0 \<and> usbredirfilter_verify rules = 0"
  by (simp add: EINVAL_def)

lemma verify_single:
  "usbredirfilter_verify [r] = 0 \<longleftrightarrow>
     -1 \<le> device_class r \<and> device_class r \<le> 255 \<and>
     -1 \<le> vendor_id r \<and> vendor_id r \<le> 65535 \<and>
     -1 \<le> product_id r \<and> product_id r \<le> 65535 \<and>
     -1 \<le> device_version_bcd r \<and> device_version_bcd r \<le> 65535"
  by (auto simp: EINVAL_def)

lemma allow_token_props:
  "allow_token r \<noteq> []" "CHR '','' \<notin> set (allow_token r)" "CHR ''|'' \<notin> set (allow_token r)"
  "strtol (allow_token r) = (if allow r \<noteq> 0 then 1 else 0, [])"
  by (simp_all add: allow_token_def strtol_one strtol_zero)

lemma rule_string_props:
  assumes "usbredirfilter_verify [r] = 0"
  shows "rule_string r \<noteq> []" and "CHR ''|'' \<notin> set (rule_string r)"
proof -
  from assms [unfolded verify_single]
  have b: "-1 \<le> device_class r" "device_class r \<le> 65535"
    "-1 \<le> vendor_id r" "vendor_id r \<le> 65535"
    "-1 \<le> product_id r" "product_id r \<le> 65535"
    "-1 \<le> device_version_bcd r" "device_version_bcd r \<le> 65535"
    by simp_all
  show "rule_string r \<noteq> []" by (simp add: rule_string_def)
  show "CHR ''|'' \<notin> set (rule_string r)"
    using field_token_props(3) [OF b(1,2)] field_token_props(3) [OF b(3,4)]
      field_token_props(3) [OF b(5,6)] field_token_props(3) [OF b(7,8)] allow_token_props(3)
    by (simp add: rule_string_def)
qed

lemma parse_rule_rule_string:
  assumes "usbredirfilter_verify [r] = 0"
  shows "parse_rule '','' (rule_string r) = Some (normalize_allow r)"
proof -
  from assms [unfolded verify_single]
  have b: "-1 \<le> device_class r" "device_class r \<le> 65535"
    "-1 \<le> vendor_id r" "vendor_id r \<le> 65535"
    "-1 \<le> product_id r" "product_id r \<le> 65535"
    "-1 \<le> device_version_bcd r" "device_version_bcd r \<le> 65535"
    by simp_all
  note f1 = field_token_props [OF b(1,2), of 2]
  note f2 = field_token_props [OF b(3,4), of 4]
  note f3 = field_token_props [OF b(5,6), of 4]
  note f4 = field_token_props [OF b(7,8), of 4]
  define rest3 where "rest3 = field_token 4 (device_version_bcd r) @ CHR '','' # allow_token r"
  define rest2 where "rest2 = field_token 4 (product_id r) @ CHR '','' # rest3"
  define rest1 where "rest1 = field_token 4 (vendor_id r) @ CHR '','' # rest2"
  have rs: "rule_string r = field_token 2 (device_class r) @ CHR '','' # rest1"
    by (simp add: rule_string_def rest1_def rest2_def rest3_def)
  have t1: "strtok_r (rule_string r) '','' = Some (field_token 2 (device_class r), rest1)"
    unfolding rs by (rule strtok_r_token [OF f1(1) f1(2)])
  have t2: "strtok_r rest1 '','' = Some (field_token 4 (vendor_id r), rest2)"
    unfolding rest1_def by (rule strtok_r_token [OF f2(1) f2(2)])
  have t3: "strtok_r rest2 '','' = Some (field_token 4 (product_id r), rest3)"
    unfolding rest2_def by (rule strtok_r_token [OF f3(1) f3(2)])
  have t4: "strtok_r rest3 '','' = Some (field_token 4 (device_version_bcd r), allow_token r)"
    unfolding rest3_def by (rule strtok_r_token [OF f4(1) f4(2)])
  have t5: "strtok_r (allow_token r) '','' = Some (allow_token r, [])"
    by (rule strtok_r_last [OF allow_token_props(1) allow_token_props(2)])
  have l: "long_to_int (device_class r) = device_class r"
    "long_to_int (vendor_id r) = vendor_id r"
    "long_to_int (product_id r) = product_id r"
    "long_to_int (device_version_bcd r) = device_version_bcd r"
    "long_to_int (if allow r \<noteq> 0 then 1 else 0) = (if allow r \<noteq> 0 then 1 else 0)"
    using b by (simp_all add: long_to_int_id)
  define v1 where "v1 = [device_class r, 0, 0, 0, 0]"
  define v2 where "v2 = [device_class r, vendor_id r, 0, 0, 0]"
  define v3 where "v3 = [device_class r, vendor_id r, product_id r, 0, 0]"
  define v4 where "v4 = [device_class r, vendor_id r, product_id r, device_version_bcd r, 0]"
  define v5 where "v5 = [device_class r, vendor_id r, product_id r, device_version_bcd r,
                         if allow r \<noteq> 0 then 1 else 0]"
  have u1: "[0, 0, 0, 0, 0][0 := long_to_int (device_class r)] = v1"
    by (simp add: v1_def l)
  have u2: "v1[1 := long_to_int (vendor_id r)] = v2"
    by (simp add: v1_def v2_def l)
  have u3: "v2[2 := long_to_int (product_id r)] = v3"
    by (simp add: v2_def v3_def l)
  have u4: "v3[3 := long_to_int (device_version_bcd r)] = v4"
    by (simp add: v3_def v4_def l)
  have u5: "v4[4 := long_to_int (if allow r \<noteq> 0 then 1 else 0)] = v5"
    unfolding l by (simp add: v4_def v5_def)
  have "parse_values '','' 0 (strtok_r (rule_string r) '','') [0, 0, 0, 0, 0] =
        parse_values '','' 1 (strtok_r rest1 '','') v1"
    unfolding t1 u1 [symmetric] by (rule parse_values_step' [OF _ f1(4)]) simp_all
  also have "\<dots> = parse_values '','' 2 (strtok_r rest2 '','') v2"
    unfolding t2 u2 [symmetric] by (rule parse_values_step' [OF _ f2(4)]) simp_all
  also have "\<dots> = parse_values '','' 3 (strtok_r rest3 '','') v3"
    unfolding t3 u3 [symmetric] by (rule parse_values_step' [OF _ f3(4)]) simp_all
  also have "\<dots> = parse_values '','' 4 (strtok_r (allow_token r) '','') v4"
    unfolding t4 u4 [symmetric] by (rule parse_values_step' [OF _ f4(4)]) simp_all
  also have "\<dots> = parse_values '','' 5 (strtok_r [] '','') v5"
    unfolding t5 u5 [symmetric] by (rule parse_values_step' [OF _ allow_token_props(4)]) simp_all
  also have "\<dots> = (5, None, v5)"
    unfolding strtok_r_empty by (rule parse_values_done)
  finally have pv: "parse_values '','' 0 (strtok_r (rule_string r) '','') [0, 0, 0, 0, 0] =
        (5, None, v5)" .
  have r': "\<lparr>device_class = v5 ! 0, vendor_id = v5 ! 1, product_id = v5 ! 2,
               device_version_bcd = v5 ! 3, allow = v5 ! 4\<rparr> = normalize_allow r"
    by (simp add: v5_def normalize_allow_def)
  have vn: "usbredirfilter_verify [normalize_allow r] = 0"
    using assms unfolding verify_single by (simp add: normalize_allow_def)
  show ?thesis
    unfolding parse_rule_def pv by (simp only: Let_def prod.case r' vn) simp
qed

lemma parse_rules_round_trip:
  assumes "usbredirfilter_verify rules = 0"
  shows "parse_rules '','' ''|'' (rules_to_string_loop rules (CHR '','') (CHR ''|'')) acc =
         Inr (acc @ map normalize_allow rules)"
  using assms
proof (induction rules arbitrary: acc)
  case Nil
  show ?case by (subst parse_rules.simps) (simp add: strtok_r_empty)
next
  case (Cons r rules)
  from Cons.prems have both: "usbredirfilter_verify [r] = 0 \<and> usbredirfilter_verify rules = 0"
    by (rule iffD1 [OF verify_Cons])
  from both have vr: "usbredirfilter_verify [r] = 0" by (rule conjunct1)
  from both have vrs: "usbredirfilter_verify rules = 0" by (rule conjunct2)
  note p = rule_string_props [OF vr]
  show ?case
  proof (cases "rules = []")
    case True
    have str: "rules_to_string_loop (r # rules) (CHR '','') (CHR ''|'') = rule_string r"
      using True by (simp add: rules_to_string_loop_Cons del: rules_to_string_loop.simps(2))
    have tk: "strtok_r (rule_string r) ''|'' = Some (rule_string r, [])"
      by (rule strtok_r_last [OF p])
    have "parse_rules '','' ''|'' (rule_string r) acc =
          parse_rules '','' ''|'' [] (acc @ [normalize_allow r])"
      by (subst parse_rules.simps) (simp add: tk parse_rule_rule_string [OF vr])
    also have "\<dots> = Inr (acc @ [normalize_allow r])"
      by (subst parse_rules.simps) (simp add: strtok_r_empty)
    finally show ?thesis unfolding str using True by simp
  next
    case False
    define rest where "rest = rules_to_string_loop rules (CHR '','') (CHR ''|'')"
    have str: "rules_to_string_loop (r # rules) (CHR '','') (CHR ''|'') =
               rule_string r @ CHR ''|'' # rest"
      using False
      by (simp add: rules_to_string_loop_Cons rest_def del: rules_to_string_loop.simps(2))
    have tk: "strtok_r (rule_string r @ CHR ''|'' # rest) ''|'' = Some (rule_string r, rest)"
      by (rule strtok_r_token [OF p])
    have "parse_rules '','' ''|'' (rule_string r @ CHR ''|'' # rest) acc =
          parse_rules '','' ''|'' rest (acc @ [normalize_allow r])"
      by (subst parse_rules.simps) (simp add: tk parse_rule_rule_string [OF vr])
    also have "\<dots> = Inr ((acc @ [normalize_allow r]) @ map normalize_allow rules)"
      unfolding rest_def by (rule Cons.IH [OF vrs])
    finally show ?thesis unfolding str by simp
  qed
qed

lemma c_int_id: "- (2 ^ 31) \<le> v \<Longrightarrow> v < 2 ^ 31 \<Longrightarrow> c_int v = v"
  by (simp add: c_int_def sint_sbintrunc' signed_take_bit_int_eq_self)

lemma to_hex_length: "n < 16 ^ k \<Longrightarrow> 0 < k \<Longrightarrow> length (to_hex n) \<le> k"
proof (induction n arbitrary: k rule: to_hex.induct)
  case (1 n)
  show ?case
  proof (cases "n < 16")
    case True
    with "1.prems" show ?thesis by (subst to_hex.simps) simp
  next
    case False
    from "1.prems"(2) obtain k' where k: "k = Suc k'" by (cases k) auto
    from False "1.prems"(1) have k'0: "0 < k'"
      unfolding k by (cases k') auto
    from "1.prems"(1) have "n div 16 < 16 ^ k'"
      unfolding k by (simp add: less_mult_imp_div_less mult.commute)
    with "1.IH" [OF False _ k'0] have "length (to_hex (n div 16)) \<le> k'" by simp
    with False show ?thesis unfolding k by (subst to_hex.simps) simp
  qed
qed

lemma sprintf_field_length2:
  assumes "-1 \<le> v" and "v \<le> 255"
  shows "length (sprintf_field 2 v sep) \<le> 5"
proof (cases "v = -1")
  case True
  then show ?thesis by (simp add: sprintf_field_def)
next
  case False
  with assms have "nat (v mod 2 ^ 32) < 16 ^ 2" by simp
  then have "length (to_hex (nat (v mod 2 ^ 32))) \<le> 2" by (rule to_hex_length) simp
  with False show ?thesis by (simp add: sprintf_field_def sprintf_0x_def Let_def)
qed

lemma sprintf_field_length4:
  assumes "-1 \<le> v" and "v \<le> 65535"
  shows "length (sprintf_field 4 v sep) \<le> 7"
proof (cases "v = -1")
  case True
  then show ?thesis by (simp add: sprintf_field_def)
next
  case False
  with assms have "nat (v mod 2 ^ 32) < 16 ^ 4" by simp
  then have "length (to_hex (nat (v mod 2 ^ 32))) \<le> 4" by (rule to_hex_length) simp
  with False show ?thesis by (simp add: sprintf_field_def sprintf_0x_def Let_def)
qed

text \<open>The comment in the source: 28 bytes per rule are enough for verified rules.\<close>

lemma rules_to_string_loop_length:
  assumes "usbredirfilter_verify rules = 0"
  shows "length (rules_to_string_loop rules token_sep rule_sep) \<le> 28 * length rules"
  using assms
proof (induction rules)
  case Nil
  show ?case by simp
next
  case (Cons r rules)
  from Cons.prems have both: "usbredirfilter_verify [r] = 0 \<and> usbredirfilter_verify rules = 0"
    by (rule iffD1 [OF verify_Cons])
  from both have vr: "usbredirfilter_verify [r] = 0" by (rule conjunct1)
  from both have vrs: "usbredirfilter_verify rules = 0" by (rule conjunct2)
  from vr [unfolded verify_single]
  have b: "-1 \<le> device_class r" "device_class r \<le> 255"
    "-1 \<le> vendor_id r" "vendor_id r \<le> 65535"
    "-1 \<le> product_id r" "product_id r \<le> 65535"
    "-1 \<le> device_version_bcd r" "device_version_bcd r \<le> 65535"
    by simp_all
  note l1 = sprintf_field_length2 [OF b(1,2), of token_sep]
  note l2 = sprintf_field_length4 [OF b(3,4), of token_sep]
  note l3 = sprintf_field_length4 [OF b(5,6), of token_sep]
  note l4 = sprintf_field_length4 [OF b(7,8), of token_sep]
  note ih = Cons.IH [OF vrs]
  have "length (rules_to_string_loop (r # rules) token_sep rule_sep) =
        length (sprintf_field 2 (device_class r) token_sep) +
        length (sprintf_field 4 (vendor_id r) token_sep) +
        length (sprintf_field 4 (product_id r) token_sep) +
        length (sprintf_field 4 (device_version_bcd r) token_sep) +
        1 + (if rules \<noteq> [] then 1 else 0) +
        length (rules_to_string_loop rules token_sep rule_sep)"
    by simp
  with l1 l2 l3 l4 ih show ?case by (simp split: if_splits)
qed

text \<open>
  Claim C1, as amended. For every rule list \<open>R\<close> of at most 76695844 rules (so that
  \<^verbatim>\<open>28 * rules_count + 1\<close> fits an \<^verbatim>\<open>int\<close>) that \<^verbatim>\<open>usbredirfilter_verify\<close> accepts,
  \<^verbatim>\<open>usbredirfilter_rules_to_string\<close> with \<^verbatim>\<open>","\<close> and \<^verbatim>\<open>"|"\<close> returns a string (not
  \<^verbatim>\<open>NULL\<close>), and \<^verbatim>\<open>usbredirfilter_string_to_rules\<close> on that string with the same
  separators succeeds with as many rules as \<open>R\<close> has, whose class, vendor, product and
  version fields equal those of \<open>R\<close> and whose allow field is 1 where that of \<open>R\<close> is not 0,
  and 0 where it is 0.
\<close>

theorem filter_round_trip_normalised:
  assumes "usbredirfilter_verify R = 0" and "length R \<le> 76695844"
  shows "\<exists>s. usbredirfilter_rules_to_string R '','' ''|'' = Inr (Some s) \<and>
             usbredirfilter_string_to_rules s '','' ''|'' = Inr (map normalize_allow R)"
proof -
  from assms(2) have "c_int (28 * int (length R) + 1) = 28 * int (length R) + 1"
    by (intro c_int_id) simp_all
  then have m: "malloc (c_int (28 * int (length R) + 1)) =
                Some (replicate (28 * length R + 1) 0)"
    by (simp add: malloc_def nat_add_distrib nat_mult_distrib)
  from rules_to_string_loop_length [OF assms(1), of "CHR '',''" "CHR ''|''"]
  have "usbredirfilter_rules_to_string R '','' ''|'' =
          Inr (Some (rules_to_string_loop R (CHR '','') (CHR ''|'')))"
    using assms(1) by (simp add: usbredirfilter_rules_to_string_def Let_def m)
  moreover have "usbredirfilter_string_to_rules (rules_to_string_loop R (CHR '','') (CHR ''|''))
                   '','' ''|'' = Inr (map normalize_allow R)"
    using parse_rules_round_trip [OF assms(1), of "[]"]
    by (simp add: usbredirfilter_string_to_rules_def)
  ultimately show ?thesis by blast
qed

theorem filter_round_trip_normalised_witness:
  "usbredirfilter_verify example_rules = 0 \<and> length example_rules \<le> 76695844 \<and>
   (\<exists>s. usbredirfilter_rules_to_string example_rules '','' ''|'' = Inr (Some s) \<and>
        usbredirfilter_string_to_rules s '','' ''|'' = Inr (map normalize_allow example_rules))"
proof -
  have v: "usbredirfilter_verify example_rules = 0"
    by (simp add: example_rules_def)
  have l: "length example_rules \<le> 76695844"
    by (simp add: example_rules_def)
  from filter_round_trip_normalised [OF v l] v l show ?thesis by simp
qed

text \<open>
  The claim as stated (the allow field itself comes back) fails on a verified rule whose
  allow field is 2: it is written as 1 and read back as 1.
\<close>

theorem filter_round_trip_counterexample:
  "usbredirfilter_verify
     [\<lparr>device_class = 3, vendor_id = -1, product_id = -1, device_version_bcd = -1, allow = 2\<rparr>] = 0 \<and>
   usbredirfilter_rules_to_string
     [\<lparr>device_class = 3, vendor_id = -1, product_id = -1, device_version_bcd = -1, allow = 2\<rparr>]
     '','' ''|'' = Inr (Some ''0x03,-1,-1,-1,1'') \<and>
   usbredirfilter_string_to_rules ''0x03,-1,-1,-1,1'' '','' ''|'' =
     Inr [\<lparr>device_class = 3, vendor_id = -1, product_id = -1, device_version_bcd = -1, allow = 1\<rparr>] \<and>
   allow \<lparr>device_class = 3, vendor_id = -1, product_id = -1, device_version_bcd = -1, allow = 1\<rparr> \<noteq>
   allow \<lparr>device_class = 3, vendor_id = -1, product_id = -1, device_version_bcd = -1, allow = 2\<rparr>"
  by code_simp

text \<open>
  The bound on the number of rules is sharp: with 76695845 verified rules the size
  \<^verbatim>\<open>28 * rules_count + 1\<close> is 2147483661, which wraps to a negative \<^verbatim>\<open>int\<close>, and the
  result is \<^verbatim>\<open>NULL\<close>.
\<close>

lemma rules_to_string_int_overflow:
  assumes "usbredirfilter_verify R = 0" and "length R = 76695845"
  shows "usbredirfilter_rules_to_string R '','' ''|'' = Inr None"
proof -
  have "c_int (28 * int (length R) + 1) = - 2147483635"
    unfolding assms(2) by (simp add: c_int_def)
  then show ?thesis
    using assms(1) by (simp add: usbredirfilter_rules_to_string_def Let_def malloc_def)
qed


text \<open>
  Claim C9 at the input \<^verbatim>\<open>"4294967299,-1,-1,-1,0"\<close>: the first field is the number
  4294967299, far outside -1..255, yet the call succeeds, with class 3 (the low 32 bits of
  the \<^verbatim>\<open>long\<close> that \<^verbatim>\<open>strtol\<close> returned).
\<close>

theorem string_to_rules_accepts_wrapped_field:
  "fst (strtol ''4294967299'') = 4294967299 \<and>
   usbredirfilter_string_to_rules ''4294967299,-1,-1,-1,0'' '','' ''|'' =
     Inr [\<lparr>device_class = 3, vendor_id = -1, product_id = -1, device_version_bcd = -1, allow = 0\<rparr>]"
  by code_simp

lemma string_to_rules_empty_separator:
  "token_sep = [] \<or> rule_sep = [] \<Longrightarrow>
   usbredirfilter_string_to_rules filter_str token_sep rule_sep = Inl (- EINVAL)"
  by (auto simp: usbredirfilter_string_to_rules_def)

section \<open>Protocol parser (usbredirparser.c)\<close>

subsection \<open>Protocol constants\<close>

text \<open>
  Modelled from the spec: the protocol headers usbredirproto.h and usbredirparser.h (the
  packet-type and capability enumerators, the packed header structs, the parser's flags
  and return codes, the serialization magic) are not among the sources. The spec lists the
  packet types and the capability names and gives the two fixed headers and the magic; the
  enumerators' values and the sizes and field offsets of the packed structs are those of
  the usbredir protocol the code is written against.
\<close>

definition USB_REDIR_CAPS_SIZE :: nat where "USB_REDIR_CAPS_SIZE = 1"

definition usb_redir_cap_bulk_streams :: nat where "usb_redir_cap_bulk_streams = 0"
definition usb_redir_cap_connect_device_version :: nat where "usb_redir_cap_connect_device_version = 1"
definition usb_redir_cap_filter :: nat where "usb_redir_cap_filter = 2"
definition usb_redir_cap_device_disconnect_ack :: nat where "usb_redir_cap_device_disconnect_ack = 3"
definition usb_redir_cap_ep_info_max_packet_size :: nat where "usb_redir_cap_ep_info_max_packet_size = 4"
definition usb_redir_cap_64bits_ids :: nat where "usb_redir_cap_64bits_ids = 5"
definition usb_redir_cap_32bits_bulk_length :: nat where "usb_redir_cap_32bits_bulk_length = 6"
definition usb_redir_cap_bulk_receiving :: nat where "usb_redir_cap_bulk_receiving = 7"

definition usb_redir_hello :: "32 word" where "usb_redir_hello = 0"
definition usb_redir_device_connect :: "32 word" where "usb_redir_device_connect = 1"
definition usb_redir_device_disconnect :: "32 word" where "usb_redir_device_disconnect = 2"
definition usb_redir_reset :: "32 word" where "usb_redir_reset = 3"
definition usb_redir_interface_info :: "32 word" where "usb_redir_interface_info = 4"
definition usb_redir_ep_info :: "32 word" where "usb_redir_ep_info = 5"
definition usb_redir_set_configuration :: "32 word" where "usb_redir_set_configuration = 6"
definition usb_redir_get_configuration :: "32 word" where "usb_redir_get_configuration = 7"
definition usb_redir_configuration_status :: "32 word" where "usb_redir_configuration_status = 8"
definition usb_redir_set_alt_setting :: "32 word" where "usb_redir_set_alt_setting = 9"
definition usb_redir_get_alt_setting :: "32 word" where "usb_redir_get_alt_setting = 10"
definition usb_redir_alt_setting_status :: "32 word" where "usb_redir_alt_setting_status = 11"
definition usb_redir_start_iso_stream :: "32 word" where "usb_redir_start_iso_stream = 12"
definition usb_redir_stop_iso_stream :: "32 word" where "usb_redir_stop_iso_stream = 13"
definition usb_redir_iso_stream_status :: "32 word" where "usb_redir_iso_stream_status = 14"
definition usb_redir_start_interrupt_receiving :: "32 word" where
  "usb_redir_start_interrupt_receiving = 15"
definition usb_redir_stop_interrupt_receiving :: "32 word" where
  "usb_redir_stop_interrupt_receiving = 16"
definition usb_redir_interrupt_receiving_status :: "32 word" where
  "usb_redir_interrupt_receiving_status = 17"
definition usb_redir_alloc_bulk_streams :: "32 word" where "usb_redir_alloc_bulk_streams = 18"
definition usb_redir_free_bulk_streams :: "32 word" where "usb_redir_free_bulk_streams = 19"
definition usb_redir_bulk_streams_status :: "32 word" where "usb_redir_bulk_streams_status = 20"
definition usb_redir_cancel_data_packet :: "32 word" where "usb_redir_cancel_data_packet = 21"
definition usb_redir_filter_reject :: "32 word" where "usb_redir_filter_reject = 22"
definition usb_redir_filter_filter :: "32 word" where "usb_redir_filter_filter = 23"
definition usb_redir_device_disconnect_ack :: "32 word" where "usb_redir_device_disconnect_ack = 24"
definition usb_redir_start_bulk_receiving :: "32 word" where "usb_redir_start_bulk_receiving = 25"
definition usb_redir_stop_bulk_receiving :: "32 word" where "usb_redir_stop_bulk_receiving = 26"
definition usb_redir_bulk_receiving_status :: "32 word" where "usb_redir_bulk_receiving_status = 27"
definition usb_redir_control_packet :: "32 word" where "usb_redir_control_packet = 100"
definition usb_redir_bulk_packet :: "32 word" where "usb_redir_bulk_packet = 101"
definition usb_redir_iso_packet :: "32 word" where "usb_redir_iso_packet = 102"
definition usb_redir_interrupt_packet :: "32 word" where "usb_redir_interrupt_packet = 103"
definition usb_redir_buffered_bulk_packet :: "32 word" where "usb_redir_buffered_bulk_packet = 104"


text \<open>\<^verbatim>\<open>sizeof\<close> of the two fixed headers and of the packed type-specific headers.\<close>

definition sizeof_usb_redir_header :: int where "sizeof_usb_redir_header = 16"
definition sizeof_usb_redir_header_32bit_id :: int where "sizeof_usb_redir_header_32bit_id = 12"
definition sizeof_type_header :: nat where "sizeof_type_header = 288"

definition sizeof_hello_header :: int where "sizeof_hello_header = 64"
definition sizeof_device_connect_header :: int where "sizeof_device_connect_header = 10"
definition sizeof_device_connect_header_no_device_version :: int where
  "sizeof_device_connect_header_no_device_version = 8"
definition sizeof_interface_info_header :: int where "sizeof_interface_info_header = 132"
definition sizeof_ep_info_header :: int where "sizeof_ep_info_header = 288"
definition sizeof_ep_info_header_no_max_streams :: int where
  "sizeof_ep_info_header_no_max_streams = 160"
definition sizeof_ep_info_header_no_max_pktsz :: int where
  "sizeof_ep_info_header_no_max_pktsz = 96"
definition sizeof_set_configuration_header :: int where "sizeof_set_configuration_header = 1"
definition sizeof_configuration_status_header :: int where
  "sizeof_configuration_status_header = 2"
definition sizeof_set_alt_setting_header :: int where "sizeof_set_alt_setting_header = 2"
definition sizeof_get_alt_setting_header :: int where "sizeof_get_alt_setting_header = 1"
definition sizeof_alt_setting_status_header :: int where "sizeof_alt_setting_status_header = 3"
definition sizeof_start_iso_stream_header :: int where "sizeof_start_iso_stream_header = 3"
definition sizeof_stop_iso_stream_header :: int where "sizeof_stop_iso_stream_header = 1"
definition sizeof_iso_stream_status_header :: int where "sizeof_iso_stream_status_header = 2"
definition sizeof_start_interrupt_receiving_header :: int where
  "sizeof_start_interrupt_receiving_header = 1"
definition sizeof_stop_interrupt_receiving_header :: int where
  "sizeof_stop_interrupt_receiving_header = 1"
definition sizeof_interrupt_receiving_status_header :: int where
  "sizeof_interrupt_receiving_status_header = 2"
definition sizeof_alloc_bulk_streams_header :: int where "sizeof_alloc_bulk_streams_header = 8"
definition sizeof_free_bulk_streams_header :: int where "sizeof_free_bulk_streams_header = 4"
definition sizeof_bulk_streams_status_header :: int where "sizeof_bulk_streams_status_header = 9"
definition sizeof_start_bulk_receiving_header :: int where
  "sizeof_start_bulk_receiving_header = 10"
definition sizeof_stop_bulk_receiving_header :: int where "sizeof_stop_bulk_receiving_header = 5"
definition sizeof_bulk_receiving_status_header :: int where
  "sizeof_bulk_receiving_status_header = 6"
definition sizeof_control_packet_header :: int where "sizeof_control_packet_header = 10"
definition sizeof_bulk_packet_header :: int where "sizeof_bulk_packet_header = 10"
definition sizeof_bulk_packet_header_16bit_length :: int where
  "sizeof_bulk_packet_header_16bit_length = 8"
definition sizeof_iso_packet_header :: int where "sizeof_iso_packet_header = 4"
definition sizeof_interrupt_packet_header :: int where "sizeof_interrupt_packet_header = 4"
definition sizeof_buffered_bulk_packet_header :: int where
  "sizeof_buffered_bulk_packet_header = 10"

lemmas sizeof_defs =
  sizeof_usb_redir_header_def sizeof_usb_redir_header_32bit_id_def sizeof_type_header_def
  sizeof_hello_header_def sizeof_device_connect_header_def
  sizeof_device_connect_header_no_device_version_def sizeof_interface_info_header_def
  sizeof_ep_info_header_def sizeof_ep_info_header_no_max_streams_def
  sizeof_ep_info_header_no_max_pktsz_def sizeof_set_configuration_header_def
  sizeof_configuration_status_header_def sizeof_set_alt_setting_header_def
  sizeof_get_alt_setting_header_def sizeof_alt_setting_status_header_def
  sizeof_start_iso_stream_header_def sizeof_stop_iso_stream_header_def
  sizeof_iso_stream_status_header_def sizeof_start_interrupt_receiving_header_def
  sizeof_stop_interrupt_receiving_header_def sizeof_interrupt_receiving_status_header_def
  sizeof_alloc_bulk_streams_header_def sizeof_free_bulk_streams_header_def
  sizeof_bulk_streams_status_header_def sizeof_start_bulk_receiving_header_def
  sizeof_stop_bulk_receiving_header_def sizeof_bulk_receiving_status_header_def
  sizeof_control_packet_header_def sizeof_bulk_packet_header_def
  sizeof_bulk_packet_header_16bit_length_def sizeof_iso_packet_header_def
  sizeof_interrupt_packet_header_def sizeof_buffered_bulk_packet_header_def

definition usbredirparser_fl_usb_host :: int where "usbredirparser_fl_usb_host = 1"
definition usbredirparser_fl_write_cb_owns_buffer :: int where
  "usbredirparser_fl_write_cb_owns_buffer = 2"
definition usbredirparser_fl_no_hello :: int where "usbredirparser_fl_no_hello = 4"

definition usbredirparser_read_io_error :: int where "usbredirparser_read_io_error = -1"
definition usbredirparser_read_parse_error :: int where "usbredirparser_read_parse_error = -2"

definition USBREDIRPARSER_SERIALIZE_MAGIC :: "32 word" where
  "USBREDIRPARSER_SERIALIZE_MAGIC = 0x55525031"

definition MAX_BULK_TRANSFER_SIZE :: "32 word" where
  "MAX_BULK_TRANSFER_SIZE = 128 * 1024 * 1024"

definition MAX_PACKET_SIZE :: "32 word" where
  "MAX_PACKET_SIZE = 1024 + MAX_BULK_TRANSFER_SIZE"

subsection \<open>Bytes in memory\<close>

text \<open>
  Integers lie in memory in the machine's byte order, little-endian on the targets
  modelled. \<open>le_bytes n w\<close> are the \<open>n\<close> low bytes of \<open>w\<close>, \<open>of_le\<close> reads such bytes back;
  \<open>store xs off bs\<close> is \<^verbatim>\<open>memcpy(xs + off, bs, length bs)\<close> into the array \<open>xs\<close>.
  Conversions between C integer types are \<open>int_of_u32\<close> (\<^verbatim>\<open>uint32_t\<close> to \<^verbatim>\<open>int\<close>, the
  two's complement reading) and \<open>word_of_int\<close>.
\<close>

definition le_bytes :: "nat \<Rightarrow> 'a::len word \<Rightarrow> byte list" where
  "le_bytes n w = map (\<lambda>i. ucast (drop_bit (8 * i) w)) [0..<n]"

definition of_le :: "byte list \<Rightarrow> 'a::len word" where
  "of_le bs = foldr (\<lambda>b w. ucast b OR push_bit 8 w) bs 0"

definition store :: "byte list \<Rightarrow> nat \<Rightarrow> byte list \<Rightarrow> byte list" where
  "store xs off bs = take off xs @ bs @ drop (off + length bs) xs"

definition int_of_u32 :: "32 word \<Rightarrow> int" where
  "int_of_u32 w = sint w"

subsection \<open>Parser state\<close>

record usbredirparser_buf =
  buf :: "byte list"
  pos :: int
  len :: int

text \<open>
  \<^verbatim>\<open>struct usbredirparser_priv\<close> without the callback table and the lock. \<open>header\<close> is
  the 16 bytes of the union of the two fixed headers, \<open>type_header\<close> the 288-byte array,
  \<open>data\<close> the heap buffer (\<open>None\<close> for \<^verbatim>\<open>NULL\<close>), \<open>write_buf\<close> the linked list of
  output buffers from its head.
\<close>

record usbredirparser_priv =
  flags :: int
  have_peer_caps :: int
  our_caps :: "32 word"
  peer_caps :: "32 word"
  header :: "byte list"
  type_header :: "byte list"
  header_read :: int
  type_header_len :: int
  type_header_read :: int
  data :: "byte list option"
  data_len :: int
  data_read :: int
  to_skip :: int
  write_buf_count :: int
  write_buf :: "usbredirparser_buf list"
  write_buf_total_size :: "64 word"

text \<open>\<^verbatim>\<open>usbredirparser_create\<close>: \<^verbatim>\<open>calloc\<close> zeroes every field.\<close>

definition usbredirparser_create :: usbredirparser_priv where
  "usbredirparser_create =
     \<lparr>flags = 0, have_peer_caps = 0, our_caps = 0, peer_caps = 0,
      header = replicate 16 0, type_header = replicate sizeof_type_header 0,
      header_read = 0, type_header_len = 0, type_header_read = 0,
      data = None, data_len = 0, data_read = 0, to_skip = 0,
      write_buf_count = 0, write_buf = [], write_buf_total_size = 0\<rparr>"

text \<open>The fields of the fixed header, read from the union's bytes.\<close>

definition header_type :: "usbredirparser_priv \<Rightarrow> 32 word" where
  "header_type parser = of_le (take 4 (header parser))"

definition header_length :: "usbredirparser_priv \<Rightarrow> 32 word" where
  "header_length parser = of_le (take 4 (drop 4 (header parser)))"

definition header_id :: "usbredirparser_priv \<Rightarrow> 64 word" where
  "header_id parser = of_le (take 8 (drop 8 (header parser)))"

definition header_32bit_id_id :: "usbredirparser_priv \<Rightarrow> 32 word" where
  "header_32bit_id_id parser = of_le (take 4 (drop 8 (header parser)))"

subsection \<open>Capabilities and header lengths\<close>

definition usbredirparser_caps_get_cap :: "32 word \<Rightarrow> nat \<Rightarrow> int" where
  "usbredirparser_caps_get_cap caps cap =
     (if cap div 32 \<ge> USB_REDIR_CAPS_SIZE then 0
      else if caps AND push_bit (cap mod 32) 1 \<noteq> 0 then 1 else 0)"

definition usbredirparser_caps_set_cap :: "32 word \<Rightarrow> nat \<Rightarrow> 32 word" where
  "usbredirparser_caps_set_cap caps cap = caps OR push_bit (cap mod 32) 1"

definition usbredirparser_peer_has_cap :: "usbredirparser_priv \<Rightarrow> nat \<Rightarrow> int" where
  "usbredirparser_peer_has_cap parser cap = usbredirparser_caps_get_cap (peer_caps parser) cap"

definition usbredirparser_have_cap :: "usbredirparser_priv \<Rightarrow> nat \<Rightarrow> int" where
  "usbredirparser_have_cap parser cap = usbredirparser_caps_get_cap (our_caps parser) cap"

definition usbredirparser_verify_caps :: "32 word \<Rightarrow> 32 word" where
  "usbredirparser_verify_caps caps =
     (if usbredirparser_caps_get_cap caps usb_redir_cap_bulk_streams \<noteq> 0 \<and>
         usbredirparser_caps_get_cap caps usb_redir_cap_ep_info_max_packet_size = 0
      then caps AND NOT (push_bit usb_redir_cap_bulk_streams 1)
      else caps)"

definition usbredirparser_using_32bits_ids :: "usbredirparser_priv \<Rightarrow> bool" where
  "usbredirparser_using_32bits_ids parser =
     (usbredirparser_have_cap parser usb_redir_cap_64bits_ids = 0 \<or>
      usbredirparser_peer_has_cap parser usb_redir_cap_64bits_ids = 0)"

definition usbredirparser_get_header_len :: "usbredirparser_priv \<Rightarrow> int" where
  "usbredirparser_get_header_len parser =
     (if usbredirparser_using_32bits_ids parser then sizeof_usb_redir_header_32bit_id
      else sizeof_usb_redir_header)"

definition both_have_cap :: "usbredirparser_priv \<Rightarrow> nat \<Rightarrow> bool" where
  "both_have_cap parser cap =
     (usbredirparser_have_cap parser cap \<noteq> 0 \<and> usbredirparser_peer_has_cap parser cap \<noteq> 0)"

definition usbredirparser_get_type_header_len ::
  "usbredirparser_priv \<Rightarrow> 32 word \<Rightarrow> bool \<Rightarrow> int" where
  "usbredirparser_get_type_header_len parser type send =
     (let command_for_host =
            ((flags parser AND usbredirparser_fl_usb_host \<noteq> 0) \<noteq> send)
      in
      if type = usb_redir_hello then sizeof_hello_header
      else if type = usb_redir_device_connect then
        (if \<not> command_for_host then
           (if both_have_cap parser usb_redir_cap_connect_device_version
            then sizeof_device_connect_header
            else sizeof_device_connect_header_no_device_version)
         else -1)
      else if type = usb_redir_device_disconnect then (if \<not> command_for_host then 0 else -1)
      else if type = usb_redir_reset then (if command_for_host then 0 else -1)
      else if type = usb_redir_interface_info then
        (if \<not> command_for_host then sizeof_interface_info_header else -1)
      else if type = usb_redir_ep_info then
        (if \<not> command_for_host then
           (if both_have_cap parser usb_redir_cap_bulk_streams then sizeof_ep_info_header
            else if both_have_cap parser usb_redir_cap_ep_info_max_packet_size
            then sizeof_ep_info_header_no_max_streams
            else sizeof_ep_info_header_no_max_pktsz)
         else -1)
      else if type = usb_redir_set_configuration then
        (if command_for_host then sizeof_set_configuration_header else -1)
      else if type = usb_redir_get_configuration then (if command_for_host then 0 else -1)
      else if type = usb_redir_configuration_status then
        (if \<not> command_for_host then sizeof_configuration_status_header else -1)
      else if type = usb_redir_set_alt_setting then
        (if command_for_host then sizeof_set_alt_setting_header else -1)
      else if type = usb_redir_get_alt_setting then
        (if command_for_host then sizeof_get_alt_setting_header else -1)
      else if type = usb_redir_alt_setting_status then
        (if \<not> command_for_host then sizeof_alt_setting_status_header else -1)
      else if type = usb_redir_start_iso_stream then
        (if command_for_host then sizeof_start_iso_stream_header else -1)
      else if type = usb_redir_stop_iso_stream then
        (if command_for_host then sizeof_stop_iso_stream_header else -1)
      else if type = usb_redir_iso_stream_status then
        (if \<not> command_for_host then sizeof_iso_stream_status_header else -1)
      else if type = usb_redir_start_interrupt_receiving then
        (if command_for_host then sizeof_start_interrupt_receiving_header else -1)
      else if type = usb_redir_stop_interrupt_receiving then
        (if command_for_host then sizeof_stop_interrupt_receiving_header else -1)
      else if type = usb_redir_interrupt_receiving_status then
        (if \<not> command_for_host then sizeof_interrupt_receiving_status_header else -1)
      else if type = usb_redir_alloc_bulk_streams then
        (if command_for_host then sizeof_alloc_bulk_streams_header else -1)
      else if type = usb_redir_free_bulk_streams then
        (if command_for_host then sizeof_free_bulk_streams_header else -1)
      else if type = usb_redir_bulk_streams_status then
        (if \<not> command_for_host then sizeof_bulk_streams_status_header else -1)
      else if type = usb_redir_cancel_data_packet then (if command_for_host then 0 else -1)
      else if type = usb_redir_filter_reject then (if command_for_host then 0 else -1)
      else if type = usb_redir_filter_filter then 0
      else if type = usb_redir_device_disconnect_ack then (if command_for_host then 0 else -1)
      else if type = usb_redir_start_bulk_receiving then
        (if command_for_host then sizeof_start_bulk_receiving_header else -1)
      else if type = usb_redir_stop_bulk_receiving then
        (if command_for_host then sizeof_stop_bulk_receiving_header else -1)
      else if type = usb_redir_bulk_receiving_status then
        (if \<not> command_for_host then sizeof_bulk_receiving_status_header else -1)
      else if type = usb_redir_control_packet then sizeof_control_packet_header
      else if type = usb_redir_bulk_packet then
        (if both_have_cap parser usb_redir_cap_32bits_bulk_length
         then sizeof_bulk_packet_header
         else sizeof_bulk_packet_header_16bit_length)
      else if type = usb_redir_iso_packet then sizeof_iso_packet_header
      else if type = usb_redir_interrupt_packet then sizeof_interrupt_packet_header
      else if type = usb_redir_buffered_bulk_packet then
        (if \<not> command_for_host then sizeof_buffered_bulk_packet_header else -1)
      else -1)"

definition usbredirparser_expect_extra_data :: "usbredirparser_priv \<Rightarrow> bool" where
  "usbredirparser_expect_extra_data parser =
     (header_type parser \<in> set [usb_redir_hello, usb_redir_filter_filter,
        usb_redir_control_packet, usb_redir_bulk_packet, usb_redir_iso_packet,
        usb_redir_interrupt_packet, usb_redir_buffered_bulk_packet])"


subsection \<open>Validation of a type-specific header\<close>

text \<open>
  Fields of the packed type-specific headers, by offset: \<open>u8_at\<close>, \<open>u16_at\<close> and \<open>u32_at\<close>.
\<close>

definition u8_at :: "byte list \<Rightarrow> nat \<Rightarrow> byte" where
  "u8_at hdr k = of_le (take 1 (drop k hdr))"

definition u16_at :: "byte list \<Rightarrow> nat \<Rightarrow> 16 word" where
  "u16_at hdr k = of_le (take 2 (drop k hdr))"

definition u32_at :: "byte list \<Rightarrow> nat \<Rightarrow> 32 word" where
  "u32_at hdr k = of_le (take 4 (drop k hdr))"

definition usbredirparser_verify_bulk_recv_cap :: "usbredirparser_priv \<Rightarrow> bool \<Rightarrow> bool" where
  "usbredirparser_verify_bulk_recv_cap parser send =
     (\<not> ((send \<and> usbredirparser_peer_has_cap parser usb_redir_cap_bulk_receiving = 0) \<or>
         (\<not> send \<and> usbredirparser_have_cap parser usb_redir_cap_bulk_receiving = 0)))"

definition cap_ok :: "usbredirparser_priv \<Rightarrow> bool \<Rightarrow> nat \<Rightarrow> bool" where
  "cap_ok parser send cap =
     (\<not> ((send \<and> usbredirparser_peer_has_cap parser cap = 0) \<or>
         (\<not> send \<and> usbredirparser_have_cap parser cap = 0)))"

text \<open>
  The outcome of the \<^verbatim>\<open>switch\<close> of \<^verbatim>\<open>usbredirparser_verify_type_header\<close>: a
  \<^verbatim>\<open>return 0\<close> (\<open>Invalid\<close>), a \<^verbatim>\<open>break\<close> with \<^verbatim>\<open>ep\<close> still -1 (\<open>No_ep\<close>), or a
  \<^verbatim>\<open>break\<close> with \<^verbatim>\<open>ep\<close> and \<^verbatim>\<open>length\<close> set.
\<close>

datatype switch_result = Invalid | No_ep | With_ep byte "32 word"

definition verify_type_header_switch ::
  "usbredirparser_priv \<Rightarrow> 32 word \<Rightarrow> byte list \<Rightarrow> byte list option \<Rightarrow> int \<Rightarrow> bool \<Rightarrow>
   switch_result" where
  "verify_type_header_switch parser type hdr dat dat_len send =
     (if type = usb_redir_interface_info then
        (if u32_at hdr 0 > 32 then Invalid else No_ep)
      else if type = usb_redir_start_interrupt_receiving then
        (if u8_at hdr 0 AND 0x80 = 0 then Invalid else No_ep)
      else if type = usb_redir_stop_interrupt_receiving then
        (if u8_at hdr 0 AND 0x80 = 0 then Invalid else No_ep)
      else if type = usb_redir_interrupt_receiving_status then
        (if u8_at hdr 1 AND 0x80 = 0 then Invalid else No_ep)
      else if type = usb_redir_filter_reject then
        (if \<not> cap_ok parser send usb_redir_cap_filter then Invalid else No_ep)
      else if type = usb_redir_filter_filter then
        (if \<not> cap_ok parser send usb_redir_cap_filter then Invalid
         else if dat_len < 1 then Invalid
         else if (case dat of None \<Rightarrow> 0 | Some d \<Rightarrow> u8_at d (nat (dat_len - 1))) \<noteq> 0
         then Invalid
         else No_ep)
      else if type = usb_redir_device_disconnect_ack then
        (if \<not> cap_ok parser send usb_redir_cap_device_disconnect_ack then Invalid else No_ep)
      else if type = usb_redir_start_bulk_receiving then
        (if \<not> usbredirparser_verify_bulk_recv_cap parser send then Invalid
         else if u32_at hdr 4 > MAX_BULK_TRANSFER_SIZE then Invalid
         else if u8_at hdr 8 AND 0x80 = 0 then Invalid
         else No_ep)
      else if type = usb_redir_stop_bulk_receiving then
        (if \<not> usbredirparser_verify_bulk_recv_cap parser send then Invalid
         else if u8_at hdr 4 AND 0x80 = 0 then Invalid
         else No_ep)
      else if type = usb_redir_bulk_receiving_status then
        (if \<not> usbredirparser_verify_bulk_recv_cap parser send then Invalid
         else if u8_at hdr 4 AND 0x80 = 0 then Invalid
         else No_ep)
      else if type = usb_redir_control_packet then
        With_ep (u8_at hdr 0) (ucast (u16_at hdr 8))
      else if type = usb_redir_bulk_packet then
        (let plength = (if both_have_cap parser usb_redir_cap_32bits_bulk_length
                       then push_bit 16 (ucast (u16_at hdr 8)) OR ucast (u16_at hdr 2)
                       else ucast (u16_at hdr 2))
         in if plength > MAX_BULK_TRANSFER_SIZE then Invalid else With_ep (u8_at hdr 0) plength)
      else if type = usb_redir_iso_packet then
        With_ep (u8_at hdr 0) (ucast (u16_at hdr 2))
      else if type = usb_redir_interrupt_packet then
        With_ep (u8_at hdr 0) (ucast (u16_at hdr 2))
      else if type = usb_redir_buffered_bulk_packet then
        (if \<not> usbredirparser_verify_bulk_recv_cap parser send then Invalid
         else if u32_at hdr 4 > MAX_BULK_TRANSFER_SIZE then Invalid
         else With_ep (u8_at hdr 8) (u32_at hdr 4))
      else No_ep)"

text \<open>
  \<^verbatim>\<open>usbredirparser_verify_type_header\<close> returns whether the header is valid, and the
  header itself: on the receiving side a bulk packet header without the 32-bit length
  capability gets its \<^verbatim>\<open>length_high\<close> field (offset 8) zeroed. The comparison
  \<^verbatim>\<open>data_len != length\<close> is made on \<^verbatim>\<open>uint32_t\<close>.
\<close>

definition usbredirparser_verify_type_header ::
  "usbredirparser_priv \<Rightarrow> 32 word \<Rightarrow> byte list \<Rightarrow> byte list option \<Rightarrow> int \<Rightarrow> bool \<Rightarrow>
   bool \<times> byte list" where
  "usbredirparser_verify_type_header parser type hdr dat dat_len send =
     (let command_for_host = ((flags parser AND usbredirparser_fl_usb_host \<noteq> 0) \<noteq> send);
          hdr' = (if type = usb_redir_bulk_packet \<and>
                     \<not> both_have_cap parser usb_redir_cap_32bits_bulk_length \<and> \<not> send
                  then store hdr 8 [0, 0] else hdr)
      in case verify_type_header_switch parser type hdr dat dat_len send of
           Invalid \<Rightarrow> (False, hdr')
         | No_ep \<Rightarrow> (True, hdr')
         | With_ep ep plength \<Rightarrow>
             (let expect_extra_data =
                    ((ep AND 0x80 \<noteq> 0 \<and> \<not> command_for_host) \<or>
                     (ep AND 0x80 = 0 \<and> command_for_host))
              in if expect_extra_data then
                   (if (word_of_int dat_len :: 32 word) \<noteq> plength then (False, hdr')
                    else (True, hdr'))
                 else if dat \<noteq> None \<or> dat_len \<noteq> 0 then (False, hdr')
                 else if type = usb_redir_iso_packet then (False, hdr')
                 else if type = usb_redir_interrupt_packet \<and> command_for_host then (False, hdr')
                 else if type = usb_redir_buffered_bulk_packet then (False, hdr')
                 else (True, hdr')))"

subsection \<open>Queueing a packet\<close>

text \<open>
  \<^verbatim>\<open>usbredirparser_queue\<close>. \<open>type_header_in\<close> are the bytes of the caller's struct,
  \<open>data_in\<close> the caller's data (\<open>None\<close> for \<^verbatim>\<open>NULL\<close>). The size of the buffer is computed
  in \<^verbatim>\<open>int\<close>; where \<^verbatim>\<open>malloc\<close> fails the packet is dropped (the \<^verbatim>\<open>calloc\<close> of the list
  node is taken to succeed). The buffer is filled with the fixed header (with a 32-bit or
  a 64-bit id), the type-specific header and the data, and linked at the tail. A negative
  \<^verbatim>\<open>data_len\<close> that leaves the size positive would make \<^verbatim>\<open>memcpy\<close> copy more than
  \<^verbatim>\<open>PTRDIFF_MAX\<close> bytes, which cannot complete; no caller passes one, and the model
  queues nothing then.
\<close>

definition usbredirparser_queue ::
  "usbredirparser_priv \<Rightarrow> 32 word \<Rightarrow> 64 word \<Rightarrow> byte list \<Rightarrow> byte list option \<Rightarrow> int \<Rightarrow>
   usbredirparser_priv" where
  "usbredirparser_queue parser type id' type_header_in data_in data_len' =
     (let header_len = usbredirparser_get_header_len parser;
          type_header_len' = usbredirparser_get_type_header_len parser type True
      in if type_header_len' < 0 then parser
         else if \<not> fst (usbredirparser_verify_type_header parser type type_header_in
                          data_in data_len' True)
         then parser
         else
           (let total_size = c_int (header_len + type_header_len' + data_len')
            in case malloc total_size of
                 None \<Rightarrow> parser
               | Some fresh \<Rightarrow>
                   if data_len' < 0 then parser
                   else
                     (let hdr = le_bytes 4 type @
                                le_bytes 4 (word_of_int (type_header_len' + data_len') :: 32 word) @
                                (if usbredirparser_using_32bits_ids parser
                                 then le_bytes 4 (ucast id' :: 32 word)
                                 else le_bytes 8 id');
                          new_wbuf =
                            \<lparr>buf = hdr @ take (nat type_header_len') type_header_in @
                                   take (nat data_len')
                                     (case data_in of None \<Rightarrow> [] | Some d \<Rightarrow> d),
                             pos = 0, len = total_size\<rparr>
                      in parser\<lparr>write_buf := write_buf parser @ [new_wbuf],
                                write_buf_total_size :=
                                  write_buf_total_size parser + word_of_int total_size,
                                write_buf_count := write_buf_count parser + 1\<rparr>)))"

subsection \<open>usbredirparser_init\<close>

text \<open>
  \<open>caps\<close> is the caller's array, \<^verbatim>\<open>caps_len\<close> its length. The hello header is the
  version string, cut to 63 characters and padded with zero bytes to 64.
\<close>

definition hello_header :: "string \<Rightarrow> byte list" where
  "hello_header version =
     (let v = take 63 (map (\<lambda>c. of_nat (of_char c)) version)
      in v @ replicate (64 - length v) 0)"

definition usbredirparser_init ::
  "usbredirparser_priv \<Rightarrow> string \<Rightarrow> 32 word list \<Rightarrow> int \<Rightarrow> usbredirparser_priv" where
  "usbredirparser_init parser version caps flags' =
     (let caps_len = min (length caps) USB_REDIR_CAPS_SIZE;
          caps1 = (if caps_len \<ge> 1 then hd caps else our_caps parser);
          caps2 = (if flags' AND usbredirparser_fl_usb_host = 0
                   then usbredirparser_caps_set_cap caps1 usb_redir_cap_device_disconnect_ack
                   else caps1);
          parser1 = parser\<lparr>flags := flags' AND NOT usbredirparser_fl_no_hello,
                            our_caps := usbredirparser_verify_caps caps2\<rparr>
      in if flags' AND usbredirparser_fl_no_hello = 0
         then usbredirparser_queue parser1 usb_redir_hello 0 (hello_header version)
                (Some (le_bytes 4 (our_caps parser1)))
                (int (USB_REDIR_CAPS_SIZE * 4))
         else parser1)"

subsection \<open>Dispatch of a complete packet\<close>

text \<open>
  The callbacks of the parser's user are outside the parser; a call is recorded as a
  value: the packet type, the id where the callback takes one, the type-specific header
  and the data where the callback takes them. \<open>Filter_filter_func\<close> is the filter
  callback with the parsed rules.
\<close>

datatype callback =
    Callback "32 word" "64 word option" "byte list" "byte list option"
  | Filter_filter_func "usbredirfilter_rule list"

definition packet_id :: "usbredirparser_priv \<Rightarrow> 64 word" where
  "packet_id parser =
     (if usbredirparser_using_32bits_ids parser then ucast (header_32bit_id_id parser)
      else header_id parser)"

definition usbredirparser_handle_hello ::
  "usbredirparser_priv \<Rightarrow> byte list \<Rightarrow> byte list option \<Rightarrow> int \<Rightarrow>
   usbredirparser_priv \<times> callback list" where
  "usbredirparser_handle_hello parser hello dat dat_len =
     (if have_peer_caps parser \<noteq> 0 then (parser, [])
      else
        (let dl = (if dat_len < 0 \<or> dat_len > 4 then 4 else dat_len);
             caps = (if dl div 4 \<ge> 1
                     then of_le (take 4 (case dat of None \<Rightarrow> [] | Some d \<Rightarrow> d)) else 0)
         in (parser\<lparr>peer_caps := usbredirparser_verify_caps caps, have_peer_caps := 1\<rparr>,
             [Callback usb_redir_hello None hello None])))"

definition c_string :: "byte list option \<Rightarrow> string" where
  "c_string dat =
     map (\<lambda>b. char_of (unat b)) (takeWhile (\<lambda>b. b \<noteq> 0) (case dat of None \<Rightarrow> [] | Some d \<Rightarrow> d))"

definition usbredirparser_call_type_func ::
  "usbredirparser_priv \<Rightarrow> usbredirparser_priv \<times> callback list" where
  "usbredirparser_call_type_func parser =
     (let id' = packet_id parser;
          type = header_type parser;
          th = take (nat (type_header_len parser)) (type_header parser)
      in
      if type = usb_redir_hello then
        usbredirparser_handle_hello parser th (data parser) (data_len parser)
      else if type = usb_redir_device_disconnect then
        (if usbredirparser_peer_has_cap parser usb_redir_cap_device_disconnect_ack \<noteq> 0
         then usbredirparser_queue parser usb_redir_device_disconnect_ack 0 [] None 0
         else parser,
         [Callback type None th None])
      else if type = usb_redir_filter_filter then
        (case usbredirfilter_string_to_rules (c_string (data parser)) '','' ''|'' of
           Inl r \<Rightarrow> (parser, [])
         | Inr rules \<Rightarrow> (parser, [Filter_filter_func rules]))
      else if type \<in> set [usb_redir_control_packet, usb_redir_bulk_packet,
                  usb_redir_iso_packet, usb_redir_interrupt_packet,
                  usb_redir_buffered_bulk_packet] then
        (parser, [Callback type (Some id') th (data parser)])
      else if type \<in> set [usb_redir_device_connect, usb_redir_reset,
                  usb_redir_interface_info, usb_redir_ep_info, usb_redir_filter_reject,
                  usb_redir_device_disconnect_ack] then
        (parser, [Callback type None th None])
      else if type \<in> set [usb_redir_set_configuration, usb_redir_get_configuration,
                  usb_redir_configuration_status, usb_redir_set_alt_setting,
                  usb_redir_get_alt_setting, usb_redir_alt_setting_status,
                  usb_redir_start_iso_stream, usb_redir_stop_iso_stream,
                  usb_redir_iso_stream_status, usb_redir_start_interrupt_receiving,
                  usb_redir_stop_interrupt_receiving, usb_redir_interrupt_receiving_status,
                  usb_redir_alloc_bulk_streams, usb_redir_free_bulk_streams,
                  usb_redir_bulk_streams_status, usb_redir_cancel_data_packet,
                  usb_redir_start_bulk_receiving, usb_redir_stop_bulk_receiving,
                  usb_redir_bulk_receiving_status] then
        (parser, [Callback type (Some id') th None])
      else (parser, []))"

subsection \<open>usbredirparser_do_read\<close>

text \<open>
  The read callback is the transport. Its behaviour over a run is a list of chunks: a
  call takes bytes from the first chunk, as many as asked for at most; an empty chunk
  (or no chunk left) is a call that returns 0, nothing to read now; \<open>Io_error\<close> is a call
  that returns \<^verbatim>\<open>usbredirparser_read_io_error\<close>. The result is the return value, the
  bytes delivered and the chunks left.
\<close>

datatype chunk = Data "byte list" | Io_error

fun read_func :: "chunk list \<Rightarrow> int \<Rightarrow> int \<times> byte list \<times> chunk list" where
  "read_func [] count' = (0, [], [])"
| "read_func (Io_error # input) count' = (usbredirparser_read_io_error, [], input)"
| "read_func (Data bs # input) count' =
     (if bs = [] \<or> count' \<le> 0 then (0, [], input)
      else
        (let n = min (nat count') (length bs)
         in (int n, take n bs,
             if drop n bs = [] then input else Data (drop n bs) # input)))"

fun chunk_size :: "chunk \<Rightarrow> nat" where
  "chunk_size (Data bs) = Suc (length bs)"
| "chunk_size Io_error = 1"

definition input_size :: "chunk list \<Rightarrow> nat" where
  "input_size input = sum_list (map chunk_size input)"

lemma read_func_consumes:
  assumes "read_func input count' = (r, bs, input')" and "r > 0"
  shows "input_size input' < input_size input"
proof (cases input)
  case Nil
  with assms show ?thesis by simp
next
  case (Cons c cs)
  show ?thesis
  proof (cases c)
    case Io_error
    with Cons assms show ?thesis by (simp add: usbredirparser_read_io_error_def)
  next
    case (Data d)
    show ?thesis
    proof (cases "d = [] \<or> count' \<le> 0")
      case True
      with Cons Data assms show ?thesis by auto
    next
      case False
      then have n: "0 < min (nat count') (length d)" by auto
      have "input' = (if drop (min (nat count') (length d)) d = [] then cs
                      else Data (drop (min (nat count') (length d)) d) # cs)"
        using Cons Data assms False by (auto simp: Let_def)
      with n show ?thesis
        by (auto simp: input_size_def Cons Data)
    qed
  qed
qed

text \<open>The loop that skips forward after an error; \<open>Some r\<close> is its early \<^verbatim>\<open>return r\<close>.\<close>

function skip_forward ::
  "usbredirparser_priv \<Rightarrow> chunk list \<Rightarrow> int option \<times> usbredirparser_priv \<times> chunk list" where
  "skip_forward parser input =
     (if to_skip parser > 0 then
        (case read_func input (if to_skip parser > 65536 then 65536 else to_skip parser) of
           (r, bs, input') \<Rightarrow>
             if r \<le> 0 then (Some r, parser, input')
             else skip_forward (parser\<lparr>to_skip := to_skip parser - r\<rparr>) input')
      else (None, parser, input))"
  by pat_completeness auto
termination
proof (relation "measure (\<lambda>(parser, input). input_size input)", goal_cases)
  case 1
  show ?case by simp
next
  case (2 parser input r y bs input')
  from 2(2,3) have "read_func input (if 65536 < to_skip parser then 65536 else to_skip parser)
          = (r, bs, input')" by simp
  moreover from 2(4) have "r > 0" by simp
  ultimately have "input_size input' < input_size input" by (rule read_func_consumes)
  then show ?case by simp
qed

declare skip_forward.simps [simp del]

text \<open>
  One pass of the body of \<^verbatim>\<open>while (1)\<close>: it either returns (\<open>Return\<close>, with the return
  value) or goes round again (\<open>Continue\<close>). The local \<^verbatim>\<open>header_len\<close> is carried along.
  \<open>parse_error\<close> is the common error exit: \<^verbatim>\<open>to_skip = header.length\<close> (a \<^verbatim>\<open>uint32_t\<close>
  stored in an \<^verbatim>\<open>int\<close>), \<^verbatim>\<open>header_read = 0\<close>, return
  \<^verbatim>\<open>usbredirparser_read_parse_error\<close>.
\<close>

datatype iter_result =
    Return int usbredirparser_priv "chunk list" "callback list"
  | Continue int usbredirparser_priv "chunk list" "callback list"

definition parse_error ::
  "usbredirparser_priv \<Rightarrow> chunk list \<Rightarrow> callback list \<Rightarrow> iter_result" where
  "parse_error parser input calls =
     Return usbredirparser_read_parse_error
       (parser\<lparr>to_skip := int_of_u32 (header_length parser), header_read := 0\<rparr>) input calls"

definition header_complete ::
  "int \<Rightarrow> usbredirparser_priv \<Rightarrow> chunk list \<Rightarrow> callback list \<Rightarrow> iter_result" where
  "header_complete header_len parser input calls =
     (let type_header_len' =
            usbredirparser_get_type_header_len parser (header_type parser) False
      in if type_header_len' < 0 then parse_error parser input calls
         else if type_header_len' > int sizeof_type_header then parse_error parser input calls
         else if header_length parser > MAX_PACKET_SIZE then parse_error parser input calls
         else if int_of_u32 (header_length parser) < type_header_len' \<or>
                 (int_of_u32 (header_length parser) > type_header_len' \<and>
                  \<not> usbredirparser_expect_extra_data parser)
         then parse_error parser input calls
         else
           (let data_len' = int_of_u32 (header_length parser - word_of_int type_header_len')
            in if data_len' \<noteq> 0 then
                 (case malloc data_len' of
                    None \<Rightarrow> parse_error parser input calls
                  | Some d \<Rightarrow>
                      Continue header_len
                        (parser\<lparr>data := Some d, type_header_len := type_header_len',
                                 data_len := data_len'\<rparr>) input calls)
               else
                 Continue header_len
                   (parser\<lparr>type_header_len := type_header_len', data_len := data_len'\<rparr>)
                   input calls))"

definition packet_complete ::
  "usbredirparser_priv \<Rightarrow> chunk list \<Rightarrow> callback list \<Rightarrow> iter_result" where
  "packet_complete parser input calls =
     (case usbredirparser_verify_type_header parser (header_type parser) (type_header parser)
             (data parser) (data_len parser) False of
        (r, th) \<Rightarrow>
          (let parser1 = parser\<lparr>type_header := th\<rparr>;
               (parser2, new_calls) =
                  (if r then usbredirparser_call_type_func parser1 else (parser1, []));
               parser3 = parser2\<lparr>header_read := 0, type_header_len := 0,
                                  type_header_read := 0, data_len := 0, data_read := 0,
                                  data := None\<rparr>
           in if \<not> r then Return usbredirparser_read_parse_error parser3 input (calls @ new_calls)
              else Continue (usbredirparser_get_header_len parser3) parser3 input
                     (calls @ new_calls)))"

definition after_read ::
  "int \<Rightarrow> usbredirparser_priv \<Rightarrow> int \<Rightarrow> byte list \<Rightarrow> chunk list \<Rightarrow> callback list \<Rightarrow>
   iter_result" where
  "after_read header_len parser r bs input calls =
     (if header_read parser < header_len then
        (let parser1 = parser\<lparr>header := store (header parser) (nat (header_read parser)) bs,
                              header_read := header_read parser + r\<rparr>
         in if header_read parser1 = header_len
            then header_complete header_len parser1 input calls
            else Continue header_len parser1 input calls)
      else if type_header_read parser < type_header_len parser then
        Continue header_len
          (parser\<lparr>type_header :=
                     store (type_header parser) (nat (type_header_read parser)) bs,
                   type_header_read := type_header_read parser + r\<rparr>) input calls
      else
        (let parser1 = parser\<lparr>data := (case data parser of None \<Rightarrow> None
                                        | Some d \<Rightarrow> Some (store d (nat (data_read parser)) bs)),
                              data_read := data_read parser + r\<rparr>
         in if data_read parser1 = data_len parser1
            then packet_complete parser1 input calls
            else Continue header_len parser1 input calls))"

definition wanted :: "int \<Rightarrow> usbredirparser_priv \<Rightarrow> int" where
  "wanted header_len parser =
     (if header_read parser < header_len then header_len - header_read parser
      else if type_header_read parser < type_header_len parser
      then type_header_len parser - type_header_read parser
      else data_len parser - data_read parser)"

definition do_read_iter ::
  "int \<Rightarrow> usbredirparser_priv \<Rightarrow> chunk list \<Rightarrow> callback list \<Rightarrow> iter_result" where
  "do_read_iter header_len parser input calls =
     (let r = wanted header_len parser
      in if r > 0 then
           (case read_func input r of
              (r', bs, input') \<Rightarrow>
                if r' \<le> 0 then Return r' parser input' calls
                else after_read header_len parser r' bs input' calls)
         else after_read header_len parser r [] input calls)"

text \<open>
  The loop ends: a pass that reads consumes input, and a pass that reads nothing completes a
  packet, after which the next pass reads the next header.
\<close>

lemma get_header_len_pos: "usbredirparser_get_header_len parser > 0"
  by (simp add: usbredirparser_get_header_len_def sizeof_usb_redir_header_def
      sizeof_usb_redir_header_32bit_id_def)

lemma parse_error_not_continue [simp]:
  "parse_error parser input calls \<noteq> Continue hl' p' input' calls'"
  by (simp add: parse_error_def)

lemma header_complete_continue:
  assumes "header_complete hl parser input calls = Continue hl' p' input' calls'"
  shows "input' = input"
  using assms
  by (auto simp: header_complete_def Let_def split: if_splits option.splits)

lemma packet_complete_continue:
  assumes "packet_complete parser input calls = Continue hl' p' input' calls'"
  shows "input' = input \<and> header_read p' = 0 \<and> hl' = usbredirparser_get_header_len p'"
  using assms
  by (auto simp: packet_complete_def Let_def split: if_splits prod.splits)

lemma after_read_continue:
  assumes "after_read hl parser r bs input calls = Continue hl' p' input' calls'"
  shows "input' = input"
  using assms
  by (auto simp: after_read_def Let_def
      dest: header_complete_continue packet_complete_continue split: if_splits)

lemma after_read_no_read_continue:
  assumes "after_read hl parser (wanted hl parser) [] input calls = Continue hl' p' input' calls'"
    and "wanted hl parser \<le> 0"
  shows "wanted hl' p' > 0"
proof -
  from assms(2) have a: "\<not> header_read parser < hl"
    by (auto simp: wanted_def split: if_splits)
  from assms(2) a have b: "\<not> type_header_read parser < type_header_len parser"
    by (auto simp: wanted_def split: if_splits)
  from a b have w: "wanted hl parser = data_len parser - data_read parser"
    by (simp add: wanted_def)
  from assms(1) a b have "header_read p' = 0 \<and> hl' = usbredirparser_get_header_len p'"
    unfolding w
    by (auto simp: after_read_def Let_def dest: packet_complete_continue split: if_splits)
  then show ?thesis
    using get_header_len_pos [of p'] by (simp add: wanted_def)
qed

definition loop_measure :: "int \<Rightarrow> usbredirparser_priv \<Rightarrow> chunk list \<Rightarrow> nat" where
  "loop_measure hl parser input =
     2 * input_size input + (if wanted hl parser > 0 then 0 else 1)"

lemma do_read_iter_decreases:
  assumes "do_read_iter hl parser input calls = Continue hl' p' input' calls'"
  shows "loop_measure hl' p' input' < loop_measure hl parser input"
proof (cases "wanted hl parser > 0")
  case True
  obtain r bs input1 where rd: "read_func input (wanted hl parser) = (r, bs, input1)"
    by (cases "read_func input (wanted hl parser)") auto
  from assms True rd have r: "r > 0"
    and ar: "after_read hl parser r bs input1 calls = Continue hl' p' input' calls'"
    by (auto simp: do_read_iter_def Let_def split: if_splits)
  from ar have "input' = input1" by (rule after_read_continue)
  moreover from rd r have "input_size input1 < input_size input" by (rule read_func_consumes)
  ultimately show ?thesis using True by (simp add: loop_measure_def)
next
  case False
  with assms have ar: "after_read hl parser (wanted hl parser) [] input calls =
      Continue hl' p' input' calls'"
    by (simp add: do_read_iter_def Let_def)
  from ar have "input' = input" by (rule after_read_continue)
  moreover from ar False have "wanted hl' p' > 0"
    by (intro after_read_no_read_continue) auto
  ultimately show ?thesis using False by (simp add: loop_measure_def)
qed

text \<open>The loop \<^verbatim>\<open>while (1)\<close> and \<^verbatim>\<open>usbredirparser_do_read\<close> itself.\<close>

function do_read_loop ::
  "int \<Rightarrow> usbredirparser_priv \<Rightarrow> chunk list \<Rightarrow> callback list \<Rightarrow>
   int \<times> usbredirparser_priv \<times> chunk list \<times> callback list" where
  "do_read_loop header_len parser input calls =
     (case do_read_iter header_len parser input calls of
        Return r parser' input' calls' \<Rightarrow> (r, parser', input', calls')
      | Continue header_len' parser' input' calls' \<Rightarrow>
          do_read_loop header_len' parser' input' calls')"
  by pat_completeness auto
termination
  by (relation "measure (\<lambda>(header_len, parser, input, calls).
        loop_measure header_len parser input)")
     (auto dest: do_read_iter_decreases)

declare do_read_loop.simps [simp del]

definition usbredirparser_do_read ::
  "usbredirparser_priv \<Rightarrow> chunk list \<Rightarrow>
   int \<times> usbredirparser_priv \<times> chunk list \<times> callback list" where
  "usbredirparser_do_read parser input =
     (let header_len = usbredirparser_get_header_len parser
      in case skip_forward parser input of
           (Some r, parser', input') \<Rightarrow> (r, parser', input', [])
         | (None, parser', input') \<Rightarrow> do_read_loop header_len parser' input' [])"

subsection \<open>Serialization of the parser state\<close>

text \<open>
  \<^verbatim>\<open>serialize_int\<close> and \<^verbatim>\<open>serialize_data\<close> append to the growing state buffer;
  reallocation is taken to succeed. The two placeholders (total length at offset 4, the
  number of write buffers) are patched at the end.
\<close>

definition serialize_int :: "32 word \<Rightarrow> byte list" where
  "serialize_int val = le_bytes 4 val"

definition serialize_data :: "byte list \<Rightarrow> 32 word \<Rightarrow> byte list" where
  "serialize_data dat len' = le_bytes 4 len' @ take (unat len') dat"

definition usbredirparser_serialize :: "usbredirparser_priv \<Rightarrow> int \<times> byte list \<times> int" where
  "usbredirparser_serialize parser =
     (let state1 =
            serialize_int USBREDIRPARSER_SERIALIZE_MAGIC @
            serialize_int 0 @
            serialize_data (le_bytes 4 (our_caps parser)) (of_nat (USB_REDIR_CAPS_SIZE * 4)) @
            (if have_peer_caps parser \<noteq> 0
             then serialize_data (le_bytes 4 (peer_caps parser)) (of_nat (USB_REDIR_CAPS_SIZE * 4))
             else serialize_int 0) @
            serialize_int (word_of_int (to_skip parser)) @
            serialize_data (header parser) (word_of_int (header_read parser)) @
            serialize_data (type_header parser) (word_of_int (type_header_read parser)) @
            serialize_data (case data parser of None \<Rightarrow> [] | Some d \<Rightarrow> d)
              (word_of_int (data_read parser));
          write_buf_count_pos = length state1;
          state2 = state1 @ serialize_int 0 @
            concat (map (\<lambda>wbuf. serialize_data (drop (nat (pos wbuf)) (buf wbuf))
                                 (word_of_int (len wbuf - pos wbuf)))
                        (write_buf parser));
          state3 = store state2 write_buf_count_pos
                     (le_bytes 4 (of_nat (length (write_buf parser)) :: 32 word));
          len' = (of_nat (length state3) :: 32 word);
          state4 = store state3 4 (le_bytes 4 len')
      in (0, state4, int_of_u32 len'))"

text \<open>
  \<^verbatim>\<open>unserialize_int\<close> and \<^verbatim>\<open>unserialize_data\<close> read from the front of what remains
  of the state (\<^verbatim>\<open>*pos\<close> with \<^verbatim>\<open>*remain\<close> bytes); \<open>None\<close> is their \<^verbatim>\<open>return -1\<close>.
  \<open>dest\<close> is the destination \<^verbatim>\<open>*data\<close> (\<open>None\<close> for \<^verbatim>\<open>NULL\<close>: the buffer is then
  allocated), \<open>len_in_out\<close> its size; the result is the destination after the copy, the
  length read and the rest of the state.
\<close>

definition unserialize_int :: "byte list \<Rightarrow> (32 word \<times> byte list) option" where
  "unserialize_int st =
     (if length st < 4 then None else Some (of_le (take 4 st), drop 4 st))"

definition unserialize_data ::
  "byte list \<Rightarrow> byte list option \<Rightarrow> 32 word \<Rightarrow>
   (byte list option \<times> 32 word \<times> byte list) option" where
  "unserialize_data st dest len_in_out =
     (if length st < 4 then None
      else
        (let len' = (of_le (take 4 st) :: 32 word);
             st1 = drop 4 st
         in if length st1 < unat len' then None
            else if dest = None \<and> len' > 0
            then Some (Some (take (unat len') st1), len', drop (unat len') st1)
            else if len_in_out < len' then None
            else Some (case dest of None \<Rightarrow> None
                       | Some d \<Rightarrow> Some (store d 0 (take (unat len') st1)),
                       len', drop (unat len') st1)))"

definition pristine :: "usbredirparser_priv \<Rightarrow> bool" where
  "pristine parser =
     (write_buf_count parser = 0 \<and> write_buf parser = [] \<and>
      write_buf_total_size parser = 0 \<and> data parser = None \<and> header_read parser = 0 \<and>
      type_header_read parser = 0 \<and> data_read parser = 0)"

function unserialize_write_bufs ::
  "32 word \<Rightarrow> usbredirparser_priv \<Rightarrow> byte list \<Rightarrow> int \<times> usbredirparser_priv" where
  "unserialize_write_bufs i parser st =
     (if i \<noteq> 0 then
        (case unserialize_data st None 0 of
           None \<Rightarrow> (-1, parser)
         | Some (b, l, st1) \<Rightarrow>
             if l = 0 then (-1, parser)
             else unserialize_write_bufs (i - 1)
                    (parser\<lparr>write_buf := write_buf parser @
                                [\<lparr>buf = (case b of None \<Rightarrow> [] | Some d \<Rightarrow> d), pos = 0,
                                  len = int_of_u32 l\<rparr>],
                             write_buf_total_size :=
                               write_buf_total_size parser + word_of_int (int_of_u32 l),
                             write_buf_count := write_buf_count parser + 1\<rparr>) st1)
      else if st \<noteq> [] then (-1, parser)
      else (0, parser))"
  by pat_completeness auto
termination
  by (relation "measure (\<lambda>(i, parser, st). unat i)") (auto simp: unat_minus_one unat_gt_0)

declare unserialize_write_bufs.simps [simp del]

definition unserialize_packet_data ::
  "int \<Rightarrow> usbredirparser_priv \<Rightarrow> byte list \<Rightarrow> int \<times> usbredirparser_priv" where
  "unserialize_packet_data header_len parser st =
     (case (if type_header_read parser = type_header_len parser then
              (let data_len' = int_of_u32 (header_length parser -
                                           word_of_int (type_header_len parser))
               in if data_len' \<noteq> 0 then
                    (case malloc data_len' of
                       None \<Rightarrow> None
                     | Some d \<Rightarrow> Some (parser\<lparr>data_len := data_len', data := Some d\<rparr>))
                  else Some (parser\<lparr>data_len := data_len'\<rparr>))
            else Some parser) of
        None \<Rightarrow> (-1, parser\<lparr>data_len := int_of_u32 (header_length parser -
                                            word_of_int (type_header_len parser))\<rparr>)
      | Some parser1 \<Rightarrow>
          (case unserialize_data st (data parser1) (word_of_int (data_len parser1)) of
             None \<Rightarrow> (-1, parser1\<lparr>data := None, data_len := 0\<rparr>)
           | Some (d, i, st1) \<Rightarrow>
               (let parser2 = parser1\<lparr>data := d\<rparr>;
                    parser3 =
                      (if header_read parser2 = header_len \<and>
                          type_header_read parser2 = type_header_len parser2 \<and>
                          data_len parser2 > 0
                       then parser2\<lparr>data_read := int_of_u32 i\<rparr>
                       else if data parser2 \<noteq> None
                       then parser2\<lparr>data := None, data_len := 0\<rparr>
                       else parser2)
                in case unserialize_int st1 of
                     None \<Rightarrow> (-1, parser3)
                   | Some (count', st2) \<Rightarrow> unserialize_write_bufs count' parser3 st2)))"

definition unserialize_type_header ::
  "int \<Rightarrow> usbredirparser_priv \<Rightarrow> byte list \<Rightarrow> int \<times> usbredirparser_priv" where
  "unserialize_type_header header_len parser st =
     (case unserialize_data st (Some (type_header parser))
             (word_of_int (type_header_len parser)) of
        None \<Rightarrow> (-1, parser)
      | Some (th, i, st1) \<Rightarrow>
          (let parser1 = parser\<lparr>type_header := (case th of None \<Rightarrow> [] | Some t \<Rightarrow> t)\<rparr>;
               parser2 = (if header_read parser1 = header_len
                          then parser1\<lparr>type_header_read := int_of_u32 i\<rparr> else parser1)
           in unserialize_packet_data header_len parser2 st1))"

definition unserialize_header ::
  "usbredirparser_priv \<Rightarrow> byte list \<Rightarrow> int \<times> usbredirparser_priv" where
  "unserialize_header parser st =
     (let header_len = usbredirparser_get_header_len parser
      in case unserialize_data st (Some (header parser)) (word_of_int header_len) of
           None \<Rightarrow> (-1, parser)
         | Some (h, i, st1) \<Rightarrow>
             (let parser1 = parser\<lparr>header := (case h of None \<Rightarrow> [] | Some b \<Rightarrow> b),
                                   header_read := int_of_u32 i, type_header_len := 0\<rparr>
              in if header_read parser1 = header_len then
                   (if header_length parser1 > MAX_PACKET_SIZE then (-1, parser1)
                    else
                      (let type_header_len' = usbredirparser_get_type_header_len parser1
                                                (header_type parser1) False
                       in if type_header_len' < 0 \<or>
                             type_header_len' > int sizeof_type_header \<or>
                             header_length parser1 < word_of_int type_header_len' \<or>
                             (header_length parser1 > word_of_int type_header_len' \<and>
                              \<not> usbredirparser_expect_extra_data parser1)
                          then (-1, parser1)
                          else unserialize_type_header header_len
                                 (parser1\<lparr>type_header_len := type_header_len'\<rparr>) st1))
                 else unserialize_type_header header_len parser1 st1))"

definition unserialize_caps ::
  "usbredirparser_priv \<Rightarrow> byte list \<Rightarrow> int \<times> usbredirparser_priv" where
  "unserialize_caps parser st =
     (let orig_caps = our_caps parser
      in case unserialize_data st (Some (le_bytes 4 (our_caps parser)))
                (of_nat (USB_REDIR_CAPS_SIZE * 4)) of
           None \<Rightarrow> (-1, parser)
         | Some (c, i, st1) \<Rightarrow>
             (let parser1 = parser\<lparr>our_caps := of_le (case c of None \<Rightarrow> [] | Some b \<Rightarrow> b)\<rparr>
              in if our_caps parser1 \<noteq> orig_caps \<and> our_caps parser1 AND NOT orig_caps \<noteq> 0
                 then (-1, parser1)
                 else
                   (case unserialize_data st1 (Some (le_bytes 4 (peer_caps parser1)))
                           (of_nat (USB_REDIR_CAPS_SIZE * 4)) of
                      None \<Rightarrow> (-1, parser1)
                    | Some (c', i', st2) \<Rightarrow>
                        (let parser2 =
                               parser1\<lparr>peer_caps := of_le (case c' of None \<Rightarrow> [] | Some b \<Rightarrow> b),
                                        have_peer_caps :=
                                          (if i' \<noteq> 0 then 1 else have_peer_caps parser1)\<rparr>
                         in case unserialize_int st2 of
                              None \<Rightarrow> (-1, parser2)
                            | Some (skip, st3) \<Rightarrow>
                                unserialize_header
                                  (parser2\<lparr>to_skip := int_of_u32 skip\<rparr>) st3))))"

text \<open>
  \<^verbatim>\<open>usbredirparser_unserialize\<close>: \<open>state\<close> is the blob, \<^verbatim>\<open>len\<close> its length. The result
  is the return value (0 or -1) and the parser as the call leaves it.
\<close>

definition usbredirparser_unserialize ::
  "usbredirparser_priv \<Rightarrow> byte list \<Rightarrow> int \<times> usbredirparser_priv" where
  "usbredirparser_unserialize parser state =
     (case unserialize_int state of
        None \<Rightarrow> (-1, parser)
      | Some (magic, st1) \<Rightarrow>
          if magic \<noteq> USBREDIRPARSER_SERIALIZE_MAGIC then (-1, parser)
          else if \<not> pristine parser then (-1, parser)
          else
            (case unserialize_int st1 of
               None \<Rightarrow> (-1, parser)
             | Some (l, st2) \<Rightarrow>
                 if l \<noteq> of_nat (length state) then (-1, parser)
                 else unserialize_caps parser st2))"

subsection \<open>Example parsers\<close>

text \<open>
  A host-side parser after \<^verbatim>\<open>usbredirparser_init\<close> (the hello is queued), the same
  parser created with \<^verbatim>\<open>usbredirparser_fl_no_hello\<close> (nothing queued: a pristine
  parser), and the first after it has read the hello of a peer with the same
  capabilities. \<open>cancel_packet\<close> and \<open>cancel_packet_64\<close> are a \<^verbatim>\<open>cancel_data_packet\<close> in
  the 32-bit and in the 64-bit id form.
\<close>

definition host_parser :: usbredirparser_priv where
  "host_parser = usbredirparser_init usbredirparser_create ''0.1'' [0xFF] usbredirparser_fl_usb_host"


definition pristine_host_parser :: usbredirparser_priv where
  "pristine_host_parser = usbredirparser_init usbredirparser_create ''0.1'' [0xFF]
     (usbredirparser_fl_usb_host OR usbredirparser_fl_no_hello)"

definition peer_hello :: "byte list" where
  "peer_hello =
     le_bytes 4 usb_redir_hello @ le_bytes 4 (68 :: 32 word) @ le_bytes 4 (0 :: 32 word) @
     hello_header ''peer 0.1'' @ le_bytes 4 (0xFF :: 32 word)"

definition negotiated_parser :: usbredirparser_priv where
  "negotiated_parser =
     (case usbredirparser_do_read host_parser [Data peer_hello] of
        (r, parser, input, calls) \<Rightarrow> parser)"

definition cancel_packet :: "byte list" where
  "cancel_packet =
     le_bytes 4 usb_redir_cancel_data_packet @ le_bytes 4 (0 :: 32 word) @ le_bytes 4 (42 :: 32 word)"


subsection \<open>The id width\<close>



















text \<open>
  The peer's hello, with all eight capabilities, as the bytes on the wire: before it is
  read the header has 12 bytes. \<open>negotiated_parser\<close> is the host-side parser after
  \<^verbatim>\<open>usbredirparser_do_read\<close> has read and dispatched it.
\<close>

lemma negotiated_parser_eq:
  "negotiated_parser =
     host_parser\<lparr>have_peer_caps := 1, peer_caps := 0xFF,
                  header := take 12 peer_hello @ replicate 4 0,
                  type_header := hello_header ''peer 0.1'' @ replicate 224 0\<rparr>"
  by code_simp

declare negotiated_parser_eq [code]

lemma hello_is_dispatched:
  "(case usbredirparser_do_read host_parser [Data peer_hello] of
      (r, parser, input, calls) \<Rightarrow>
        r = 0 \<and> input = [] \<and> parser = negotiated_parser \<and>
        calls = [Callback usb_redir_hello None (hello_header ''peer 0.1'') None])"
  by code_simp



subsection \<open>Snapshots\<close>

lemma unserialize_only_pristine:
  "fst (usbredirparser_unserialize parser state) = 0 \<Longrightarrow> pristine parser"
  by (auto simp: usbredirparser_unserialize_def split: option.splits if_splits)

definition partial_header :: "byte list" where
  "partial_header = le_bytes 4 usb_redir_hello @ le_bytes 4 (0xFFFFFFFF :: 32 word)"

text \<open>
  Claim C8 at a parser that has read the first 8 bytes of a header whose length field is
  0xFFFFFFFF: \<^verbatim>\<open>usbredirparser_serialize\<close> succeeds, and \<^verbatim>\<open>usbredirparser_unserialize\<close>
  of that snapshot into a pristine parser with the same \<^verbatim>\<open>our_caps\<close> returns -1. With
  the header incomplete, \<^verbatim>\<open>type_header_read == type_header_len\<close> (both 0) still holds,
  so \<^verbatim>\<open>data_len\<close> is computed from the unfinished header and \<^verbatim>\<open>malloc\<close> is asked for
  (size_t)-1 bytes.
\<close>

theorem unserialize_rejects_snapshot_of_partial_header:
  "pristine pristine_host_parser \<and>
   (case usbredirparser_do_read host_parser [Data partial_header] of
      (r, parser, input, calls) \<Rightarrow>
        r = 0 \<and> header_read parser = 8 \<and> our_caps parser = our_caps pristine_host_parser \<and>
        (case usbredirparser_serialize parser of
           (rs, state, state_len) \<Rightarrow>
             rs = 0 \<and> fst (usbredirparser_unserialize pristine_host_parser state) = -1))"
  by code_simp

definition partial_type_header :: "byte list" where
  "partial_type_header =
     le_bytes 4 usb_redir_control_packet @ le_bytes 4 (13 :: 32 word) @ le_bytes 4 (7 :: 32 word) @
     [0, 1, 2, 0, 3, 0]"

text \<open>
  A snapshot taken in the middle of a type-specific header restores the cursors but not
  \<^verbatim>\<open>data_len\<close>. The parser that was serialized goes on to dispatch the control packet
  with its three data bytes; the restored parser, given the same rest of the input,
  expects no data, finds the length mismatch and returns the parse error.
\<close>

lemma unserialize_loses_data_len:
  "(case usbredirparser_do_read host_parser [Data partial_type_header] of
      (r, parser, input, calls) \<Rightarrow>
        r = 0 \<and> type_header_read parser = 6 \<and> data_len parser = 3 \<and>
        (case usbredirparser_do_read parser [Data [0, 0, 3, 0, 1, 2, 3]] of
           (r1, parser1, input1, calls1) \<Rightarrow>
             r1 = 0 \<and> input1 = [] \<and>
             calls1 = [Callback usb_redir_control_packet (Some 7) [0, 1, 2, 0, 3, 0, 0, 0, 3, 0]
                         (Some [1, 2, 3])]) \<and>
        (case usbredirparser_serialize parser of
           (rs, state, state_len) \<Rightarrow>
             (case usbredirparser_unserialize pristine_host_parser state of
                (ru, parser') \<Rightarrow>
                  ru = 0 \<and> type_header_read parser' = 6 \<and> data_len parser' = 0 \<and>
                  (case usbredirparser_do_read parser' [Data [0, 0, 3, 0, 1, 2, 3]] of
                     (r2, parser2, input2, calls2) \<Rightarrow>
                       r2 = usbredirparser_read_parse_error \<and> calls2 = []))))"
  by code_simp

subsection \<open>Skipping after a framing error\<close>

lemma header_complete_violation:
  assumes "usbredirparser_get_type_header_len parser (header_type parser) False < 0 \<or>
           header_length parser > MAX_PACKET_SIZE \<or>
           int_of_u32 (header_length parser) <
             usbredirparser_get_type_header_len parser (header_type parser) False \<or>
           (int_of_u32 (header_length parser) >
              usbredirparser_get_type_header_len parser (header_type parser) False \<and>
            \<not> usbredirparser_expect_extra_data parser)"
  shows "header_complete header_len parser input calls =
         Return usbredirparser_read_parse_error
           (parser\<lparr>to_skip := int_of_u32 (header_length parser), header_read := 0\<rparr>)
           input calls"
  using assms by (auto simp: header_complete_def Let_def parse_error_def)

definition unknown_type_header :: "byte list" where
  "unknown_type_header =
     le_bytes 4 (9999 :: 32 word) @ le_bytes 4 (0x80000000 :: 32 word) @ le_bytes 4 (42 :: 32 word)"

text \<open>
  Claim C2 at a header with an unknown type (9999) and the declared length 0x80000000,
  followed by a well-formed packet: the call returns the parse error, but \<^verbatim>\<open>to_skip\<close>, an
  \<^verbatim>\<open>int\<close>, is then -2147483648, the skip loop \<^verbatim>\<open>while (parser->to_skip > 0)\<close> does not
  run, and the next call parses the very next bytes: nothing of the declared length is
  discarded.
\<close>

theorem do_read_skip_wraps:
  "(case usbredirparser_do_read host_parser [Data unknown_type_header, Data cancel_packet] of
      (r, parser, input, calls) \<Rightarrow>
        r = usbredirparser_read_parse_error \<and> to_skip parser = - 2147483648 \<and>
        input = [Data cancel_packet] \<and> calls = [] \<and>
        (case usbredirparser_do_read parser input of
           (r', parser', input', calls') \<Rightarrow>
             r' = 0 \<and> input' = [] \<and>
             calls' = [Callback usb_redir_cancel_data_packet (Some 42) [] None]))"
  by code_simp

section \<open>Host engine (usbredirhost.c)\<close>

subsection \<open>Constants\<close>

text \<open>
  Modelled from the spec: the enumerators of usbredirproto.h (statuses, endpoint types),
  of usbredirhost.h (the host flag) and of libusb.h (transfer statuses, error codes,
  transfer types) are not among the sources. The spec names the statuses and the four
  transfer types; the values are those of the usbredir protocol and of libusb 1.0.
\<close>

definition usb_redir_success :: byte where "usb_redir_success = 0"
definition usb_redir_cancelled :: byte where "usb_redir_cancelled = 1"
definition usb_redir_inval :: byte where "usb_redir_inval = 2"
definition usb_redir_ioerror :: byte where "usb_redir_ioerror = 3"
definition usb_redir_stall :: byte where "usb_redir_stall = 4"
definition usb_redir_timeout :: byte where "usb_redir_timeout = 5"
definition usb_redir_babble :: byte where "usb_redir_babble = 6"

definition usb_redir_type_control :: byte where "usb_redir_type_control = 0"
definition usb_redir_type_iso :: byte where "usb_redir_type_iso = 1"
definition usb_redir_type_invalid :: byte where "usb_redir_type_invalid = 255"


definition LIBUSB_TRANSFER_COMPLETED :: int where "LIBUSB_TRANSFER_COMPLETED = 0"
definition LIBUSB_TRANSFER_ERROR :: int where "LIBUSB_TRANSFER_ERROR = 1"
definition LIBUSB_TRANSFER_TIMED_OUT :: int where "LIBUSB_TRANSFER_TIMED_OUT = 2"
definition LIBUSB_TRANSFER_CANCELLED :: int where "LIBUSB_TRANSFER_CANCELLED = 3"
definition LIBUSB_TRANSFER_STALL :: int where "LIBUSB_TRANSFER_STALL = 4"
definition LIBUSB_TRANSFER_NO_DEVICE :: int where "LIBUSB_TRANSFER_NO_DEVICE = 5"
definition LIBUSB_TRANSFER_OVERFLOW :: int where "LIBUSB_TRANSFER_OVERFLOW = 6"
definition LIBUSB_ERROR_INVALID_PARAM :: int where "LIBUSB_ERROR_INVALID_PARAM = -2"
definition LIBUSB_ERROR_NO_DEVICE :: int where "LIBUSB_ERROR_NO_DEVICE = -4"
definition LIBUSB_ERROR_TIMEOUT :: int where "LIBUSB_ERROR_TIMEOUT = -7"

definition LIBUSB_TRANSFER_TYPE_CONTROL :: byte where "LIBUSB_TRANSFER_TYPE_CONTROL = 0"
definition LIBUSB_TRANSFER_TYPE_BULK :: byte where "LIBUSB_TRANSFER_TYPE_BULK = 2"
definition LIBUSB_TRANSFER_TYPE_INTERRUPT :: byte where "LIBUSB_TRANSFER_TYPE_INTERRUPT = 3"
definition LIBUSB_TRANSFER_TYPE_BULK_STREAM :: byte where "LIBUSB_TRANSFER_TYPE_BULK_STREAM = 4"

definition LIBUSB_ENDPOINT_IN :: byte where "LIBUSB_ENDPOINT_IN = 0x80"


definition EP2I :: "byte \<Rightarrow> nat" where
  "EP2I ep_address = unat (drop_bit 3 (ep_address AND 0x80) OR (ep_address AND 0x0f))"

subsection \<open>Parser queries used by the host (usbredirparser.c)\<close>



subsection \<open>Host state\<close>

text \<open>
  \<^verbatim>\<open>struct usbredirtransfer\<close> with the fields of its libusb transfer that the host
  reads: \<open>packet_header\<close> is the union of the four packet headers (10 bytes),
  \<open>libusb_type\<close> and \<open>libusb_endpoint\<close> are \<^verbatim>\<open>transfer->type\<close> and
  \<^verbatim>\<open>transfer->endpoint\<close>. The completion status, the actual length and the buffer are
  given to the completion callbacks as arguments.
\<close>

record usbredirtransfer =
  transfer_id :: "64 word"
  cancelled :: byte
  packet_idx :: int
  packet_header :: "byte list"
  libusb_type :: byte
  libusb_endpoint :: byte

text \<open>
  \<^verbatim>\<open>struct usbredirhost_ep\<close> (without the interval, the interface number and the
  stream limit, which the functions modelled do not read); \<open>transfer\<close> is the array of
  16 pointers, \<open>None\<close> for \<^verbatim>\<open>NULL\<close>.
\<close>

record usbredirhost_ep =
  ep_type :: byte
  warn_on_drop :: byte
  stream_started :: byte
  pkts_per_transfer :: byte
  transfer_count :: byte
  out_idx :: int
  drop_packets :: int
  max_packetsize :: int
  transfer :: "nat \<Rightarrow> usbredirtransfer option"

text \<open>
  A call of a \<^verbatim>\<open>usbredirparser_send_*\<close> function: packet type, id, type-specific
  header and data. The host state keeps the calls made, in order, in \<open>sent\<close> (a record of
  what the host emitted, next to the parser's own queue).
\<close>

datatype sent_packet = Sent "32 word" "64 word" "byte list" "byte list option"

text \<open>
  \<^verbatim>\<open>struct usbredirhost\<close>: the parser, the flags, the application's size callback
  (\<open>None\<close> when none is registered, otherwise the size it reports), the state flags, the
  endpoint array indexed by \<open>EP2I\<close>, the list of non-stream transfers from
  \<^verbatim>\<open>transfers_head.next\<close> on, and the iso threshold.
\<close>

record usbredirhost =
  parser :: usbredirparser_priv
  host_flags :: int
  buffered_output_size_func :: "64 word option"
  reset :: int
  disconnected :: int
  cancels_pending :: int
  wait_disconnect :: int
  endpoint :: "nat \<Rightarrow> usbredirhost_ep"
  transfers :: "usbredirtransfer list"
  iso_threshold_higher :: "64 word"
  iso_threshold_lower :: "64 word"
  iso_threshold_dropping :: bool
  sent :: "sent_packet list"

definition parser_send ::
  "usbredirhost \<Rightarrow> 32 word \<Rightarrow> 64 word \<Rightarrow> byte list \<Rightarrow> byte list option \<Rightarrow> int \<Rightarrow>
   usbredirhost" where
  "parser_send host type id' hdr dat dl =
     host\<lparr>parser := usbredirparser_queue (parser host) type id' hdr dat dl,
          sent := sent host @ [Sent type id' hdr dat]\<rparr>"

definition update_ep ::
  "usbredirhost \<Rightarrow> byte \<Rightarrow> (usbredirhost_ep \<Rightarrow> usbredirhost_ep) \<Rightarrow> usbredirhost" where
  "update_ep host ep f = host\<lparr>endpoint := (endpoint host)(EP2I ep := f (endpoint host (EP2I ep)))\<rparr>"

subsection \<open>Status messages and disconnect\<close>


definition usbredirhost_handle_disconnect :: "usbredirhost \<Rightarrow> usbredirhost" where
  "usbredirhost_handle_disconnect host =
     (if disconnected host = 0 then
        (let host1 = parser_send host usb_redir_device_disconnect 0 [] None 0;
             host2 = (if usbredirparser_peer_has_cap (parser host1)
                           usb_redir_cap_device_disconnect_ack \<noteq> 0
                      then host1\<lparr>wait_disconnect := 1\<rparr> else host1)
         in host2\<lparr>disconnected := 1\<rparr>)
      else host)"

definition libusb_status_or_error_to_redir_status ::
  "usbredirhost \<Rightarrow> int \<Rightarrow> byte \<times> usbredirhost" where
  "libusb_status_or_error_to_redir_status host status =
     (if status = LIBUSB_TRANSFER_COMPLETED then (usb_redir_success, host)
      else if status = LIBUSB_TRANSFER_ERROR then (usb_redir_ioerror, host)
      else if status = LIBUSB_TRANSFER_TIMED_OUT then (usb_redir_timeout, host)
      else if status = LIBUSB_TRANSFER_CANCELLED then (usb_redir_cancelled, host)
      else if status = LIBUSB_TRANSFER_STALL then (usb_redir_stall, host)
      else if status = LIBUSB_TRANSFER_NO_DEVICE
      then (usb_redir_ioerror, usbredirhost_handle_disconnect host)
      else if status = LIBUSB_TRANSFER_OVERFLOW then (usb_redir_babble, host)
      else if status = LIBUSB_ERROR_INVALID_PARAM then (usb_redir_inval, host)
      else if status = LIBUSB_ERROR_NO_DEVICE
      then (usb_redir_ioerror, usbredirhost_handle_disconnect host)
      else if status = LIBUSB_ERROR_TIMEOUT then (usb_redir_timeout, host)
      else (usb_redir_ioerror, host))"

subsection \<open>Iso back-pressure\<close>

text \<open>
  \<^verbatim>\<open>usbredirhost_set_max_packetsize\<close>; \<open>high_speed\<close> is
  \<^verbatim>\<open>libusb_get_device_speed(host->dev) == LIBUSB_SPEED_HIGH\<close>.
\<close>

definition usbredirhost_set_max_packetsize ::
  "usbredirhost \<Rightarrow> bool \<Rightarrow> byte \<Rightarrow> 16 word \<Rightarrow> usbredirhost" where
  "usbredirhost_set_max_packetsize host high_speed ep wMaxPacketSize =
     (let maxp = uint (wMaxPacketSize AND 0x7ff);
          mult = (if high_speed \<and> ep_type (endpoint host (EP2I ep)) = usb_redir_type_iso
                  then (if drop_bit 11 wMaxPacketSize AND 3 = 1 then 2
                        else if drop_bit 11 wMaxPacketSize AND 3 = 2 then 3
                        else 1)
                  else 1)
      in update_ep host ep (\<lambda>e. e\<lparr>max_packetsize := maxp * mult\<rparr>))"




subsection \<open>Streams\<close>












subsection \<open>Cancelling a data packet, and completion\<close>

text \<open>
  The search loop of \<^verbatim>\<open>usbredirhost_cancel_data_packet\<close>: the position on the list of
  the first transfer that is not cancelled and has the id.
\<close>

fun find_transfer :: "usbredirtransfer list \<Rightarrow> 64 word \<Rightarrow> nat option" where
  "find_transfer [] id' = None"
| "find_transfer (t # ts) id' =
     (if cancelled t = 0 \<and> transfer_id t = id' then Some 0
      else map_option Suc (find_transfer ts id'))"

text \<open>
  The packet headers are packed structs: a control packet header has its status at
  offset 3 and its length at offset 8, a bulk packet header has its status at offset 1,
  its length at offset 2 and \<^verbatim>\<open>length_high\<close> at offset 8, an interrupt packet header (4
  bytes) has its status at offset 1 and its length at offset 2.
  \<^verbatim>\<open>libusb_cancel_transfer\<close> only asks libusb to complete the transfer early.
\<close>

definition usbredirhost_cancel_data_packet :: "usbredirhost \<Rightarrow> 64 word \<Rightarrow> usbredirhost" where
  "usbredirhost_cancel_data_packet host id' =
     (case find_transfer (transfers host) id' of
        None \<Rightarrow> host
      | Some n \<Rightarrow>
          (let t = transfers host ! n;
               host1 = host\<lparr>transfers := (transfers host)[n := t\<lparr>cancelled := 1\<rparr>]\<rparr>
           in if libusb_type t = LIBUSB_TRANSFER_TYPE_CONTROL then
                parser_send host1 usb_redir_control_packet (transfer_id t)
                  (store (store (take 10 (packet_header t)) 3 [usb_redir_cancelled]) 8 [0, 0])
                  None 0
              else if libusb_type t = LIBUSB_TRANSFER_TYPE_BULK \<or>
                      libusb_type t = LIBUSB_TRANSFER_TYPE_BULK_STREAM then
                parser_send host1 usb_redir_bulk_packet (transfer_id t)
                  (store (store (store (take 10 (packet_header t)) 1 [usb_redir_cancelled])
                            2 [0, 0]) 8 [0, 0])
                  None 0
              else if libusb_type t = LIBUSB_TRANSFER_TYPE_INTERRUPT then
                parser_send host1 usb_redir_interrupt_packet (transfer_id t)
                  (store (store (take 4 (packet_header t)) 1 [usb_redir_cancelled]) 2 [0, 0])
                  None 0
              else host1))"

text \<open>
  The completion callbacks of the transfers on the list. The transfer is the one at
  position \<open>n\<close>; \<open>status\<close>, \<open>actual_length\<close> and \<open>buffer\<close> are the fields of its libusb
  transfer at completion. \<^verbatim>\<open>usbredirhost_remove_and_free_transfer\<close> takes it off the
  list.
\<close>

definition LIBUSB_CONTROL_SETUP_SIZE :: nat where "LIBUSB_CONTROL_SETUP_SIZE = 8"

definition usbredirhost_remove_and_free_transfer :: "usbredirhost \<Rightarrow> nat \<Rightarrow> usbredirhost" where
  "usbredirhost_remove_and_free_transfer host n =
     host\<lparr>transfers := take n (transfers host) @ drop (Suc n) (transfers host)\<rparr>"

definition usbredirhost_control_packet_complete ::
  "usbredirhost \<Rightarrow> nat \<Rightarrow> int \<Rightarrow> int \<Rightarrow> byte list \<Rightarrow> usbredirhost" where
  "usbredirhost_control_packet_complete host n status actual_length buffer =
     (let t = transfers host ! n;
          (st, host1) = libusb_status_or_error_to_redir_status host status;
          control_packet = store (store (take 10 (packet_header t)) 3 [st]) 8
                             (le_bytes 2 (word_of_int actual_length :: 16 word));
          host2 = (if cancelled t = 0 then
                     (if u8_at control_packet 0 AND LIBUSB_ENDPOINT_IN \<noteq> 0 then
                        parser_send host1 usb_redir_control_packet (transfer_id t) control_packet
                          (Some (drop LIBUSB_CONTROL_SETUP_SIZE buffer)) actual_length
                      else
                        parser_send host1 usb_redir_control_packet (transfer_id t) control_packet
                          None 0)
                   else host1)
      in usbredirhost_remove_and_free_transfer host2 n)"

definition usbredirhost_bulk_packet_complete ::
  "usbredirhost \<Rightarrow> nat \<Rightarrow> int \<Rightarrow> int \<Rightarrow> byte list \<Rightarrow> usbredirhost" where
  "usbredirhost_bulk_packet_complete host n status actual_length buffer =
     (let t = transfers host ! n;
          (st, host1) = libusb_status_or_error_to_redir_status host status;
          bulk_packet = store (store (store (take 10 (packet_header t)) 1 [st]) 2
                                 (le_bytes 2 (word_of_int actual_length :: 16 word))) 8
                          (le_bytes 2 (word_of_int (actual_length div 2 ^ 16) :: 16 word));
          host2 = (if cancelled t = 0 then
                     (if u8_at bulk_packet 0 AND LIBUSB_ENDPOINT_IN \<noteq> 0 then
                        parser_send host1 usb_redir_bulk_packet (transfer_id t) bulk_packet
                          (Some buffer) actual_length
                      else
                        parser_send host1 usb_redir_bulk_packet (transfer_id t) bulk_packet
                          None 0)
                   else host1)
      in usbredirhost_remove_and_free_transfer host2 n)"

definition usbredirhost_interrupt_out_packet_complete ::
  "usbredirhost \<Rightarrow> nat \<Rightarrow> int \<Rightarrow> int \<Rightarrow> byte list \<Rightarrow> usbredirhost" where
  "usbredirhost_interrupt_out_packet_complete host n status actual_length buffer =
     (let t = transfers host ! n;
          (st, host1) = libusb_status_or_error_to_redir_status host status;
          interrupt_packet = store (store (take 4 (packet_header t)) 1 [st]) 2
                               (le_bytes 2 (word_of_int actual_length :: 16 word));
          host2 = (if cancelled t = 0 then
                     parser_send host1 usb_redir_interrupt_packet (transfer_id t)
                       interrupt_packet None 0
                   else host1)
      in usbredirhost_remove_and_free_transfer host2 n)"

text \<open>
  libusb calls the callback that the transfer was filled with:
  \<^verbatim>\<open>usbredirhost_control_packet\<close>, \<^verbatim>\<open>usbredirhost_bulk_packet\<close> and
  \<^verbatim>\<open>usbredirhost_interrupt_packet\<close> fill control, bulk (or bulk stream) and interrupt
  transfers with the three callbacks above.
\<close>

definition transfer_complete ::
  "usbredirhost \<Rightarrow> nat \<Rightarrow> int \<Rightarrow> int \<Rightarrow> byte list \<Rightarrow> usbredirhost" where
  "transfer_complete host n status actual_length buffer =
     (let ltype = libusb_type (transfers host ! n)
      in if ltype = LIBUSB_TRANSFER_TYPE_CONTROL
         then usbredirhost_control_packet_complete host n status actual_length buffer
         else if ltype = LIBUSB_TRANSFER_TYPE_INTERRUPT
         then usbredirhost_interrupt_out_packet_complete host n status actual_length buffer
         else usbredirhost_bulk_packet_complete host n status actual_length buffer)"

subsection \<open>Example states\<close>

definition idle_ep :: "byte \<Rightarrow> usbredirhost_ep" where
  "idle_ep t =
     \<lparr>ep_type = t, warn_on_drop = 1, stream_started = 0, pkts_per_transfer = 0,
      transfer_count = 0, out_idx = 0, drop_packets = 0, max_packetsize = 0,
      transfer = (\<lambda>i. None)\<rparr>"

definition iso_host :: usbredirhost where
  "iso_host =
     \<lparr>parser = negotiated_parser, host_flags = 0, buffered_output_size_func = None,
      reset = 0, disconnected = 0, cancels_pending = 0, wait_disconnect = 0,
      endpoint = (\<lambda>i. if i mod 16 = 0 then idle_ep usb_redir_type_control
                       else if i = EP2I 0x81
                       then (idle_ep usb_redir_type_iso)\<lparr>max_packetsize := 512\<rparr>
                       else idle_ep usb_redir_type_invalid),
      transfers = [], iso_threshold_higher = 0, iso_threshold_lower = 0,
      iso_threshold_dropping = False, sent = []\<rparr>"

subsection \<open>Frame lemmas\<close>
























lemma set_max_packetsize_range:
  "0 \<le> max_packetsize (endpoint (usbredirhost_set_max_packetsize host high_speed ep w) (EP2I ep)) \<and>
   max_packetsize (endpoint (usbredirhost_set_max_packetsize host high_speed ep w) (EP2I ep)) \<le> 6141"
proof -
  have "w AND 0x7ff \<le> 0x7ff" by (rule word_and_le1)
  then have "uint (w AND 0x7ff) \<le> uint (0x7ff :: 16 word)" by (simp only: word_le_def)
  then have le: "uint (w AND 0x7ff) \<le> 2047" by simp
  have ge: "0 \<le> uint (w AND 0x7ff)" by simp
  from le ge show ?thesis
    by (simp add: usbredirhost_set_max_packetsize_def Let_def update_ep_def)
qed

subsection \<open>Failures of stream allocation\<close>








subsection \<open>Cancelling a data packet\<close>

lemma find_transfer_Some:
  "find_transfer ts id' = Some n \<longleftrightarrow>
     n < length ts \<and> cancelled (ts ! n) = 0 \<and> transfer_id (ts ! n) = id' \<and>
     (\<forall>m<n. \<not> (cancelled (ts ! m) = 0 \<and> transfer_id (ts ! m) = id'))"
proof (induction ts arbitrary: n)
  case Nil
  show ?case by simp
next
  case (Cons t ts)
  show ?case
  proof (cases "cancelled t = 0 \<and> transfer_id t = id'")
    case True
    show ?thesis
    proof (cases n)
      case 0
      with True show ?thesis by simp
    next
      case (Suc k)
      with True show ?thesis by auto
    qed
  next
    case False
    show ?thesis
    proof (cases n)
      case 0
      with False show ?thesis by auto
    next
      case (Suc k)
      have "(\<forall>m<Suc k. \<not> (cancelled ((t # ts) ! m) = 0 \<and> transfer_id ((t # ts) ! m) = id')) =
            (\<forall>m<k. \<not> (cancelled (ts ! m) = 0 \<and> transfer_id (ts ! m) = id'))"
        using False by (auto simp: less_Suc_eq_0_disj)
      with False Suc Cons.IH [of k] show ?thesis by auto
    qed
  qed
qed

lemma find_transfer_None:
  "find_transfer ts id' = None \<longleftrightarrow>
     (\<forall>t \<in> set ts. cancelled t \<noteq> 0 \<or> transfer_id t \<noteq> id')"
  by (induction ts) auto

text \<open>
  The reply that a cancel makes up for a transfer: the packet of the transfer's type with
  the transfer's id and its stored header, in which the status is \<^verbatim>\<open>usb_redir_cancelled\<close>
  and the length (for a bulk packet also \<^verbatim>\<open>length_high\<close>) is 0, and no data.
\<close>

definition cancelled_reply :: "usbredirtransfer \<Rightarrow> sent_packet" where
  "cancelled_reply t =
     (if libusb_type t = LIBUSB_TRANSFER_TYPE_CONTROL then
        Sent usb_redir_control_packet (transfer_id t)
          (store (store (take 10 (packet_header t)) 3 [usb_redir_cancelled]) 8 [0, 0]) None
      else if libusb_type t = LIBUSB_TRANSFER_TYPE_INTERRUPT then
        Sent usb_redir_interrupt_packet (transfer_id t)
          (store (store (take 4 (packet_header t)) 1 [usb_redir_cancelled]) 2 [0, 0]) None
      else
        Sent usb_redir_bulk_packet (transfer_id t)
          (store (store (store (take 10 (packet_header t)) 1 [usb_redir_cancelled]) 2 [0, 0])
             8 [0, 0]) None)"

text \<open>
  What a completion with the given libusb status sends besides a reply: the
  \<^verbatim>\<open>device_disconnect\<close> message, the first time the device is found to be gone.
\<close>

definition disconnect_notice :: "usbredirhost \<Rightarrow> int \<Rightarrow> sent_packet list" where
  "disconnect_notice host status =
     (if (status = LIBUSB_TRANSFER_NO_DEVICE \<or> status = LIBUSB_ERROR_NO_DEVICE) \<and>
         disconnected host = 0
      then [Sent usb_redir_device_disconnect 0 [] None] else [])"

definition on_transfer_list :: "byte \<Rightarrow> bool" where
  "on_transfer_list ltype =
     (ltype = LIBUSB_TRANSFER_TYPE_CONTROL \<or> ltype = LIBUSB_TRANSFER_TYPE_BULK \<or>
      ltype = LIBUSB_TRANSFER_TYPE_BULK_STREAM \<or> ltype = LIBUSB_TRANSFER_TYPE_INTERRUPT)"

lemma cancel_data_packet_first:
  assumes "n < length (transfers host)"
    and "cancelled (transfers host ! n) = 0"
    and "\<forall>m<n. \<not> (cancelled (transfers host ! m) = 0 \<and>
                   transfer_id (transfers host ! m) = transfer_id (transfers host ! n))"
    and "on_transfer_list (libusb_type (transfers host ! n))"
  shows "sent (usbredirhost_cancel_data_packet host (transfer_id (transfers host ! n))) =
           sent host @ [cancelled_reply (transfers host ! n)]"
    and "transfers (usbredirhost_cancel_data_packet host (transfer_id (transfers host ! n))) =
           (transfers host)[n := (transfers host ! n)\<lparr>cancelled := 1\<rparr>]"
proof -
  from assms(1,2,3) have f: "find_transfer (transfers host) (transfer_id (transfers host ! n)) = Some n"
    unfolding find_transfer_Some by simp
  show "sent (usbredirhost_cancel_data_packet host (transfer_id (transfers host ! n))) =
           sent host @ [cancelled_reply (transfers host ! n)]"
    using assms(4)
    by (auto simp: usbredirhost_cancel_data_packet_def f Let_def parser_send_def
        cancelled_reply_def on_transfer_list_def LIBUSB_TRANSFER_TYPE_CONTROL_def
        LIBUSB_TRANSFER_TYPE_BULK_def LIBUSB_TRANSFER_TYPE_BULK_STREAM_def
        LIBUSB_TRANSFER_TYPE_INTERRUPT_def)
  show "transfers (usbredirhost_cancel_data_packet host (transfer_id (transfers host ! n))) =
           (transfers host)[n := (transfers host ! n)\<lparr>cancelled := 1\<rparr>]"
    by (simp add: usbredirhost_cancel_data_packet_def f Let_def parser_send_def)
qed

lemma cancel_data_packet_none:
  assumes "\<forall>t \<in> set (transfers host). cancelled t \<noteq> 0 \<or> transfer_id t \<noteq> id'"
  shows "usbredirhost_cancel_data_packet host id' = host"
proof -
  from assms have "find_transfer (transfers host) id' = None"
    unfolding find_transfer_None .
  then show ?thesis by (simp add: usbredirhost_cancel_data_packet_def)
qed

lemma status_conversion_sent:
  "sent (snd (libusb_status_or_error_to_redir_status host status)) =
     sent host @ disconnect_notice host status"
  by (simp add: libusb_status_or_error_to_redir_status_def disconnect_notice_def
      usbredirhost_handle_disconnect_def parser_send_def Let_def
      LIBUSB_TRANSFER_COMPLETED_def LIBUSB_TRANSFER_ERROR_def LIBUSB_TRANSFER_TIMED_OUT_def
      LIBUSB_TRANSFER_CANCELLED_def LIBUSB_TRANSFER_STALL_def LIBUSB_TRANSFER_NO_DEVICE_def
      LIBUSB_TRANSFER_OVERFLOW_def LIBUSB_ERROR_INVALID_PARAM_def LIBUSB_ERROR_NO_DEVICE_def
      LIBUSB_ERROR_TIMEOUT_def)

lemma status_conversion_transfers:
  "transfers (snd (libusb_status_or_error_to_redir_status host status)) = transfers host"
  by (simp add: libusb_status_or_error_to_redir_status_def
      usbredirhost_handle_disconnect_def parser_send_def Let_def)

lemma transfer_complete_cancelled:
  assumes "cancelled (transfers host ! n) \<noteq> 0"
  shows "sent (transfer_complete host n status actual_length buffer) =
           sent host @ disconnect_notice host status"
    and "transfers (transfer_complete host n status actual_length buffer) =
           take n (transfers host) @ drop (Suc n) (transfers host)"
proof -
  obtain st host1 where c: "libusb_status_or_error_to_redir_status host status = (st, host1)"
    by (cases "libusb_status_or_error_to_redir_status host status")
  from status_conversion_sent [of host status] c
  have s1: "sent host1 = sent host @ disconnect_notice host status" by simp
  from status_conversion_transfers [of host status] c
  have t1: "transfers host1 = transfers host" by simp
  show "sent (transfer_complete host n status actual_length buffer) =
           sent host @ disconnect_notice host status"
    using assms
    by (simp add: transfer_complete_def Let_def usbredirhost_control_packet_complete_def
        usbredirhost_bulk_packet_complete_def usbredirhost_interrupt_out_packet_complete_def
        usbredirhost_remove_and_free_transfer_def c s1)
  show "transfers (transfer_complete host n status actual_length buffer) =
           take n (transfers host) @ drop (Suc n) (transfers host)"
    using assms
    by (simp add: transfer_complete_def Let_def usbredirhost_control_packet_complete_def
        usbredirhost_bulk_packet_complete_def usbredirhost_interrupt_out_packet_complete_def
        usbredirhost_remove_and_free_transfer_def c t1)
qed


subsection \<open>Example host states\<close>


text \<open>
  Two bulk transfers to the endpoints 1 and 2 that the guest gave the same id 42, both
  in flight.
\<close>

definition bulk_transfer :: "64 word \<Rightarrow> byte \<Rightarrow> usbredirtransfer" where
  "bulk_transfer id' ep =
     \<lparr>transfer_id = id', cancelled = 0, packet_idx = 0,
      packet_header = [ep, 0, 8, 0, 0, 0, 0, 0, 0, 0],
      libusb_type = LIBUSB_TRANSFER_TYPE_BULK, libusb_endpoint = ep\<rparr>"

definition two_transfers_host :: usbredirhost where
  "two_transfers_host = iso_host\<lparr>transfers := [bulk_transfer 42 1, bulk_transfer 42 2]\<rparr>"


definition control_transfer :: "64 word \<Rightarrow> usbredirtransfer" where
  "control_transfer id' =
     \<lparr>transfer_id = id', cancelled = 0, packet_idx = 0,
      packet_header = [0x80, 6, 0x80, 0, 0, 1, 0, 0, 18, 0],
      libusb_type = LIBUSB_TRANSFER_TYPE_CONTROL, libusb_endpoint = 0\<rparr>"

definition three_transfers_host :: usbredirhost where
  "three_transfers_host =
     iso_host\<lparr>transfers := [control_transfer 7, bulk_transfer 42 1, bulk_transfer 43 2]\<rparr>"

subsection \<open>The claims about the host\<close>








text \<open>
  Claim C6, as amended. For the first transfer on the host's transfer list that is not
  yet flagged cancelled and has the id \<open>id\<close>, a \<^verbatim>\<open>cancel_data_packet\<close> with \<open>id\<close> flags it
  and sends exactly one reply: the packet of the transfer's type with that id, the
  transfer's stored header with status cancelled and length 0, and no data. The
  completion callback of a transfer that is flagged cancelled sends no reply (only the
  device-disconnect message, if the completion status tells that the device is gone) and
  takes the transfer off the list. A cancel whose id matches no transfer that is not
  flagged cancelled changes nothing and sends nothing.
\<close>

theorem cancel_data_packet_first_match:
  "(n < length (transfers host) \<and> cancelled (transfers host ! n) = 0 \<and>
    (\<forall>m<n. \<not> (cancelled (transfers host ! m) = 0 \<and>
              transfer_id (transfers host ! m) = transfer_id (transfers host ! n))) \<and>
    on_transfer_list (libusb_type (transfers host ! n)) \<longrightarrow>
    sent (usbredirhost_cancel_data_packet host (transfer_id (transfers host ! n))) =
      sent host @ [cancelled_reply (transfers host ! n)] \<and>
    transfers (usbredirhost_cancel_data_packet host (transfer_id (transfers host ! n))) =
      (transfers host)[n := (transfers host ! n)\<lparr>cancelled := 1\<rparr>] \<and>
    sent (transfer_complete
            (usbredirhost_cancel_data_packet host (transfer_id (transfers host ! n)))
            n status actual_length buffer) =
      sent (usbredirhost_cancel_data_packet host (transfer_id (transfers host ! n))) @
      disconnect_notice host status) \<and>
   (cancelled (transfers h ! k) \<noteq> 0 \<longrightarrow>
    sent (transfer_complete h k status actual_length buffer) =
      sent h @ disconnect_notice h status \<and>
    transfers (transfer_complete h k status actual_length buffer) =
      take k (transfers h) @ drop (Suc k) (transfers h)) \<and>
   ((\<forall>t \<in> set (transfers host). cancelled t \<noteq> 0 \<or> transfer_id t \<noteq> id') \<longrightarrow>
    usbredirhost_cancel_data_packet host id' = host)"
proof (intro conjI impI)
  assume a: "n < length (transfers host) \<and> cancelled (transfers host ! n) = 0 \<and>
    (\<forall>m<n. \<not> (cancelled (transfers host ! m) = 0 \<and>
              transfer_id (transfers host ! m) = transfer_id (transfers host ! n))) \<and>
    on_transfer_list (libusb_type (transfers host ! n))"
  define host' where
    "host' = usbredirhost_cancel_data_packet host (transfer_id (transfers host ! n))"
  from a have s: "sent host' = sent host @ [cancelled_reply (transfers host ! n)]"
    unfolding host'_def by (intro cancel_data_packet_first(1)) simp_all
  from a have t: "transfers host' = (transfers host)[n := (transfers host ! n)\<lparr>cancelled := 1\<rparr>]"
    unfolding host'_def by (intro cancel_data_packet_first(2)) simp_all
  from s show "sent (usbredirhost_cancel_data_packet host (transfer_id (transfers host ! n))) =
      sent host @ [cancelled_reply (transfers host ! n)]"
    by (simp add: host'_def)
  from t show "transfers (usbredirhost_cancel_data_packet host (transfer_id (transfers host ! n))) =
      (transfers host)[n := (transfers host ! n)\<lparr>cancelled := 1\<rparr>]"
    by (simp add: host'_def)
  from a t have c: "cancelled (transfers host' ! n) \<noteq> 0" by simp
  have d: "disconnected host' = disconnected host"
    by (simp add: host'_def usbredirhost_cancel_data_packet_def Let_def parser_send_def
        split: option.splits)
  have "sent (transfer_complete host' n status actual_length buffer) =
          sent host' @ disconnect_notice host' status"
    by (rule transfer_complete_cancelled(1) [OF c])
  also have "disconnect_notice host' status = disconnect_notice host status"
    by (simp add: disconnect_notice_def d)
  finally show "sent (transfer_complete
            (usbredirhost_cancel_data_packet host (transfer_id (transfers host ! n)))
            n status actual_length buffer) =
      sent (usbredirhost_cancel_data_packet host (transfer_id (transfers host ! n))) @
      disconnect_notice host status"
    by (simp add: host'_def)
next
  assume "cancelled (transfers h ! k) \<noteq> 0"
  then show "sent (transfer_complete h k status actual_length buffer) =
      sent h @ disconnect_notice h status"
    by (rule transfer_complete_cancelled(1))
next
  assume "cancelled (transfers h ! k) \<noteq> 0"
  then show "transfers (transfer_complete h k status actual_length buffer) =
      take k (transfers h) @ drop (Suc k) (transfers h)"
    by (rule transfer_complete_cancelled(2))
next
  assume "\<forall>t \<in> set (transfers host). cancelled t \<noteq> 0 \<or> transfer_id t \<noteq> id'"
  then show "usbredirhost_cancel_data_packet host id' = host"
    by (rule cancel_data_packet_none)
qed

text \<open>
  On a host with a control transfer (id 7) and two bulk transfers (ids 42 and 43) in
  flight: the cancel of 7 is answered with the control packet header of the transfer
  with status 1 (cancelled) and length 0, and the later completion of the transfer sends
  nothing more; a cancel of the unknown id 44 does nothing.
\<close>

theorem cancel_data_packet_first_match_witness:
  "sent (usbredirhost_cancel_data_packet three_transfers_host 7) =
     [Sent usb_redir_control_packet 7 [0x80, 6, 0x80, 1, 0, 1, 0, 0, 0, 0] None] \<and>
   map cancelled (transfers (usbredirhost_cancel_data_packet three_transfers_host 7)) = [1, 0, 0] \<and>
   sent (transfer_complete (usbredirhost_cancel_data_packet three_transfers_host 7) 0
           LIBUSB_TRANSFER_CANCELLED 0 []) =
     [Sent usb_redir_control_packet 7 [0x80, 6, 0x80, 1, 0, 1, 0, 0, 0, 0] None] \<and>
   usbredirhost_cancel_data_packet three_transfers_host 44 = three_transfers_host"
proof -
  have pre: "0 < length (transfers three_transfers_host) \<and>
    cancelled (transfers three_transfers_host ! 0) = 0 \<and>
    (\<forall>m<0. \<not> (cancelled (transfers three_transfers_host ! m) = 0 \<and>
              transfer_id (transfers three_transfers_host ! m) =
              transfer_id (transfers three_transfers_host ! 0))) \<and>
    on_transfer_list (libusb_type (transfers three_transfers_host ! 0))"
    by (simp add: three_transfers_host_def control_transfer_def on_transfer_list_def)
  have none: "\<forall>t \<in> set (transfers three_transfers_host). cancelled t \<noteq> 0 \<or> transfer_id t \<noteq> 44"
    by (simp add: three_transfers_host_def control_transfer_def bulk_transfer_def)
  have v: "transfer_id (transfers three_transfers_host ! 0) = 7"
    "sent three_transfers_host = []"
    "cancelled_reply (transfers three_transfers_host ! 0) =
       Sent usb_redir_control_packet 7 [0x80, 6, 0x80, 1, 0, 1, 0, 0, 0, 0] None"
    "disconnect_notice three_transfers_host LIBUSB_TRANSFER_CANCELLED = []"
    "map cancelled ((transfers three_transfers_host)
                      [0 := (transfers three_transfers_host ! 0)\<lparr>cancelled := 1\<rparr>]) = [1, 0, 0]"
    by code_simp+
  note a = cancel_data_packet_first_match
    [of 0 three_transfers_host LIBUSB_TRANSFER_CANCELLED 0 "[]" three_transfers_host 0 44]
  from a pre have r1:
    "sent (usbredirhost_cancel_data_packet three_transfers_host
             (transfer_id (transfers three_transfers_host ! 0))) =
       sent three_transfers_host @ [cancelled_reply (transfers three_transfers_host ! 0)]"
    "transfers (usbredirhost_cancel_data_packet three_transfers_host
                  (transfer_id (transfers three_transfers_host ! 0))) =
       (transfers three_transfers_host)
         [0 := (transfers three_transfers_host ! 0)\<lparr>cancelled := 1\<rparr>]"
    "sent (transfer_complete
            (usbredirhost_cancel_data_packet three_transfers_host
               (transfer_id (transfers three_transfers_host ! 0)))
            0 LIBUSB_TRANSFER_CANCELLED 0 []) =
      sent (usbredirhost_cancel_data_packet three_transfers_host
              (transfer_id (transfers three_transfers_host ! 0))) @
      disconnect_notice three_transfers_host LIBUSB_TRANSFER_CANCELLED"
    by blast+
  from a none have r2: "usbredirhost_cancel_data_packet three_transfers_host 44 =
                        three_transfers_host"
    by blast
  from r1(1) v have d1: "sent (usbredirhost_cancel_data_packet three_transfers_host 7) =
     [Sent usb_redir_control_packet 7 [0x80, 6, 0x80, 1, 0, 1, 0, 0, 0, 0] None]"
    by simp
  from r1(2) v have d2:
    "map cancelled (transfers (usbredirhost_cancel_data_packet three_transfers_host 7)) = [1, 0, 0]"
    by simp
  from r1(3) d1 v have d3: "sent (transfer_complete
           (usbredirhost_cancel_data_packet three_transfers_host 7) 0
           LIBUSB_TRANSFER_CANCELLED 0 []) =
     [Sent usb_redir_control_packet 7 [0x80, 6, 0x80, 1, 0, 1, 0, 0, 0, 0] None]"
    by simp
  from d1 d2 d3 r2 show ?thesis by blast
qed

text \<open>
  The claim as stated (for every transfer on the list) fails on the host with two bulk
  transfers in flight that have the same id 42, to the endpoints 1 and 2. The second one
  is on the list and not flagged cancelled. The cancel of 42 sends one reply, with the
  header of the first transfer (endpoint 1), not of the second, and flags the first; the
  second stays unflagged, and its completion sends its reply to the guest.
\<close>

theorem cancel_data_packet_same_id:
  "length (transfers two_transfers_host) = 2 \<and>
   cancelled (transfers two_transfers_host ! 1) = 0 \<and>
   transfer_id (transfers two_transfers_host ! 1) = 42 \<and>
   on_transfer_list (libusb_type (transfers two_transfers_host ! 1)) \<and>
   sent (usbredirhost_cancel_data_packet two_transfers_host 42) =
     [Sent usb_redir_bulk_packet 42 [1, 1, 0, 0, 0, 0, 0, 0, 0, 0] None] \<and>
   cancelled_reply (transfers two_transfers_host ! 1) =
     Sent usb_redir_bulk_packet 42 [2, 1, 0, 0, 0, 0, 0, 0, 0, 0] None \<and>
   map cancelled (transfers (usbredirhost_cancel_data_packet two_transfers_host 42)) = [1, 0] \<and>
   sent (transfer_complete (usbredirhost_cancel_data_packet two_transfers_host 42) 1
           LIBUSB_TRANSFER_COMPLETED 8 []) =
     [Sent usb_redir_bulk_packet 42 [1, 1, 0, 0, 0, 0, 0, 0, 0, 0] None,
      Sent usb_redir_bulk_packet 42 [2, 0, 8, 0, 0, 0, 0, 0, 0, 0] None]"
  by code_simp

end
